theory Spec2Isabelle
  imports Main
begin

section \<open>JavaScript values used by processUtils.ts\<close>

text \<open>
  A process identifier is a JavaScript \<open>number\<close>. The model keeps the integers and
  \<open>NaN\<close> (what \<open>Number\<close> gives for a line that is not a numeral); fractions,
  infinities and the rounding of integers beyond 2^53 are left out. \<open>undefined\<close> is
  \<open>None\<close> of an option type.
\<close>

datatype number = Num int | NaN

type_synonym signal = string

text \<open>The test \<open>!pid\<close> of the source is true for \<open>undefined\<close>, \<open>0\<close> and \<open>NaN\<close>.\<close>

fun falsy :: "number option \<Rightarrow> bool" where
  "falsy None = True"
| "falsy (Some NaN) = True"
| "falsy (Some (Num n)) = (n = 0)"

subsection \<open>\<open>String(pid)\<close>\<close>

definition digit_char :: "nat \<Rightarrow> char" where
  "digit_char d = char_of (48 + d)"

fun digits :: "nat \<Rightarrow> string" where
  "digits n = (if n < 10 then [digit_char n] else digits (n div 10) @ [digit_char (n mod 10)])"

declare digits.simps [simp del]

fun String_js :: "number \<Rightarrow> string" where
  "String_js NaN = ''NaN''"
| "String_js (Num n) = (if n < 0 then CHR ''-'' # digits (nat (- n)) else digits (nat n))"

subsection \<open>\<open>stdout.trim().split('\n').filter(Boolean).map(Number)\<close>\<close>

text \<open>
  Strings are byte lists, so the white space of \<open>trim\<close> and of \<open>Number\<close> is the
  ASCII part of JavaScript's: tab, line feed, vertical tab, form feed, carriage return
  and space.
\<close>

definition is_space :: "char \<Rightarrow> bool" where
  "is_space c = (c \<in> set [CHR 0x09, CHR 0x0A, CHR 0x0B, CHR 0x0C, CHR 0x0D, CHR 0x20])"

definition trim :: "string \<Rightarrow> string" where
  "trim s = rev (dropWhile is_space (rev (dropWhile is_space s)))"

text \<open>\<open>s.split(sep)\<close> for a separator of one character; \<open>''.split(sep)\<close> is \<open>['']\<close>.\<close>

fun split :: "char \<Rightarrow> string \<Rightarrow> string list" where
  "split sep [] = [[]]"
| "split sep (c # cs) =
     (if c = sep then [] # split sep cs
      else (case split sep cs of [] \<Rightarrow> [[c]] | l # ls \<Rightarrow> (c # l) # ls))"

definition digit_val :: "char \<Rightarrow> nat option" where
  "digit_val c =
     (let n = (of_char c :: nat) in if 48 \<le> n \<and> n \<le> 57 then Some (n - 48) else None)"

text \<open>A run of decimal digits read from the left, \<open>None\<close> when a character is no digit.\<close>

fun read_digits :: "nat \<Rightarrow> string \<Rightarrow> nat option" where
  "read_digits acc [] = Some acc"
| "read_digits acc (c # cs) =
     (case digit_val c of None \<Rightarrow> None | Some d \<Rightarrow> read_digits (10 * acc + d) cs)"

text \<open>
  \<open>Number(line)\<close> on the numerals a process listing prints: white space around the
  text is dropped, the empty text is \<open>0\<close>, an optional sign and decimal digits give
  the integer, and any other text is read as \<open>NaN\<close> (the hexadecimal, fractional and
  exponent forms of the language are not produced by \<open>pgrep\<close> and are not modelled).
\<close>

definition Number_js :: "string \<Rightarrow> number" where
  "Number_js s =
     (case trim s of
        [] \<Rightarrow> Num 0
      | c # cs \<Rightarrow>
          if c = CHR ''-'' \<or> c = CHR ''+'' then
            (if cs = [] then NaN
             else (case read_digits 0 cs of
                     None \<Rightarrow> NaN
                   | Some v \<Rightarrow> Num (if c = CHR ''-'' then - int v else int v)))
          else (case read_digits 0 (c # cs) of None \<Rightarrow> NaN | Some v \<Rightarrow> Num (int v)))"

definition childPids :: "string \<Rightarrow> number list" where
  "childPids stdout = map Number_js (filter (\<lambda>l. l \<noteq> []) (split (CHR 0x0A) (trim stdout)))"

section \<open>The operating system as seen by processUtils.ts\<close>

text \<open>
  Every external call may change the process table and may fail. The table is an
  abstract world \<open>'w\<close>; a call takes the world and returns its outcome with the new
  world. External calls are taken to complete: each one returns or throws.
\<close>

datatype spawn_opts = StdioIgnore | EncodingUtf8

text \<open>\<open>spawnSync\<close> throws, or returns an object whose \<open>stdout\<close> is a string or null.\<close>

datatype spawn_result = SpawnThrows | SpawnReturns "string option"

text \<open>\<open>process.kill\<close> and \<open>target.kill\<close> return or throw.\<close>

datatype completion = Completed | Raised

text \<open>The promise of \<open>pidtree(pid)\<close> resolves to a list of identifiers or rejects.\<close>

datatype pidtree_result = Rejected | Resolved "number list"

record 'w sys =
  isWindows :: bool
  spawnSync :: "string \<Rightarrow> string list \<Rightarrow> spawn_opts \<Rightarrow> 'w \<Rightarrow> spawn_result \<times> 'w"
  process_kill :: "number \<Rightarrow> signal \<Rightarrow> 'w \<Rightarrow> completion \<times> 'w"
  pidtree :: "number \<Rightarrow> 'w \<Rightarrow> pidtree_result \<times> 'w"

text \<open>
  \<open>interface ProcessLike { pid?: number; kill(signal): void }\<close>. The source asks
  \<open>'pid' in target\<close> and \<open>'kill' in target\<close>, so each property may be missing; a
  present \<open>pid\<close> may hold \<open>undefined\<close>.
\<close>

record 'w ProcessLike =
  pid :: "number option option"
  kill :: "(signal \<Rightarrow> 'w \<Rightarrow> completion \<times> 'w) option"

datatype 'w target = Pid number | Handle "'w ProcessLike"

text \<open>The calls made so far, each with what it gave back, in order.\<close>

datatype event =
    SpawnSync string "string list" spawn_opts spawn_result
  | ProcessKill number signal completion
  | TargetKill signal completion
  | Pidtree number pidtree_result

record 'w state =
  world :: 'w
  trace :: "event list"

text \<open>A statement completes normally or throws; either way the state has moved on.\<close>

datatype 'w outcome = Returned "'w state" | Threw "'w state"

definition call_spawnSync ::
  "'w sys \<Rightarrow> string \<Rightarrow> string list \<Rightarrow> spawn_opts \<Rightarrow> 'w state \<Rightarrow> spawn_result \<times> 'w state" where
  "call_spawnSync sys cmd args opts s =
     (case spawnSync sys cmd args opts (world s) of
        (r, w') \<Rightarrow> (r, \<lparr>world = w', trace = trace s @ [SpawnSync cmd args opts r]\<rparr>))"

definition call_process_kill :: "'w sys \<Rightarrow> number \<Rightarrow> signal \<Rightarrow> 'w state \<Rightarrow> 'w outcome" where
  "call_process_kill sys p sg s =
     (case process_kill sys p sg (world s) of
        (r, w') \<Rightarrow>
          (let s' = \<lparr>world = w', trace = trace s @ [ProcessKill p sg r]\<rparr>
           in case r of Completed \<Rightarrow> Returned s' | Raised \<Rightarrow> Threw s'))"

definition call_target_kill ::
  "(signal \<Rightarrow> 'w \<Rightarrow> completion \<times> 'w) \<Rightarrow> signal \<Rightarrow> 'w state \<Rightarrow> 'w outcome" where
  "call_target_kill k sg s =
     (case k sg (world s) of
        (r, w') \<Rightarrow>
          (let s' = \<lparr>world = w', trace = trace s @ [TargetKill sg r]\<rparr>
           in case r of Completed \<Rightarrow> Returned s' | Raised \<Rightarrow> Threw s'))"

definition call_pidtree :: "'w sys \<Rightarrow> number \<Rightarrow> 'w state \<Rightarrow> pidtree_result \<times> 'w state" where
  "call_pidtree sys p s =
     (case pidtree sys p (world s) of
        (r, w') \<Rightarrow> (r, \<lparr>world = w', trace = trace s @ [Pidtree p r]\<rparr>))"

subsection \<open>Control flow\<close>

text \<open>\<open>try { ... } catch { }\<close>: every catch block of the source is empty.\<close>

fun catch_ignore :: "'w outcome \<Rightarrow> 'w outcome" where
  "catch_ignore (Returned s) = Returned s"
| "catch_ignore (Threw s) = Returned s"

text \<open>Sequencing of two statements: the second runs only if the first completed.\<close>

fun and_then :: "'w outcome \<Rightarrow> ('w state \<Rightarrow> 'w outcome) \<Rightarrow> 'w outcome" where
  "and_then (Returned s) f = f s"
| "and_then (Threw s) f = Threw s"

text \<open>
  \<open>for (const x of xs) body(x)\<close>, total: a throw in the body leaves the loop.
\<close>

fun for_of :: "('a \<Rightarrow> 'w state \<Rightarrow> 'w outcome) \<Rightarrow> 'a list \<Rightarrow> 'w state \<Rightarrow> 'w outcome" where
  "for_of body [] s = Returned s"
| "for_of body (x # xs) s = and_then (body x s) (for_of body xs)"

text \<open>
  Sequencing and the loop for code that may not return: \<open>None\<close> is a computation
  that runs forever. There \<open>try\<close>/\<open>catch\<close> is \<open>map_option catch_ignore\<close>.
\<close>

fun and_then_opt ::
  "'w outcome option \<Rightarrow> ('w state \<Rightarrow> 'w outcome option) \<Rightarrow> 'w outcome option" where
  "and_then_opt None f = None"
| "and_then_opt (Some (Returned s)) f = f s"
| "and_then_opt (Some (Threw s)) f = Some (Threw s)"

fun for_of_opt ::
  "('a \<Rightarrow> 'w state \<Rightarrow> 'w outcome option) \<Rightarrow> 'a list \<Rightarrow> 'w state \<Rightarrow> 'w outcome option" where
  "for_of_opt body [] s = Some (Returned s)"
| "for_of_opt body (x # xs) s = and_then_opt (body x s) (for_of_opt body xs)"

section \<open>processUtils.ts\<close>

text \<open>Lines 32-37 and 92-97: the identifier of the target, if it shows one.\<close>

fun extractPid :: "'w target \<Rightarrow> number option" where
  "extractPid (Pid n) = Some n"
| "extractPid (Handle h) = (case pid h of None \<Rightarrow> None | Some v \<Rightarrow> v)"

text \<open>
  Lines 40-48 and 100-107: with no identifier, try the target's own \<open>kill\<close>, ignore
  what it throws, and return.
\<close>

fun killDirect :: "'w target \<Rightarrow> signal \<Rightarrow> 'w state \<Rightarrow> 'w outcome" where
  "killDirect (Pid n) sg s = Returned s"
| "killDirect (Handle h) sg s =
     (case kill h of
        None \<Rightarrow> Returned s
      | Some k \<Rightarrow> catch_ignore (call_target_kill k sg s))"

text \<open>Lines 54 and 112: the Windows branch.\<close>

definition taskkill :: "'w sys \<Rightarrow> number \<Rightarrow> 'w state \<Rightarrow> 'w outcome" where
  "taskkill sys p s =
     (case call_spawnSync sys ''taskkill'' [''/pid'', String_js p, ''/t'', ''/f''] StdioIgnore s of
        (SpawnThrows, s1) \<Rightarrow> Threw s1
      | (SpawnReturns out, s1) \<Rightarrow> Returned s1)"

text \<open>
  \<open>killProcessTree\<close> calls itself on every child that \<open>pgrep -P\<close> prints, so it need
  not return. The first argument bounds the depth of the calls; \<open>None\<close> says that
  the bound was too small.
\<close>

primrec killProcessTree ::
  "nat \<Rightarrow> 'w sys \<Rightarrow> 'w target \<Rightarrow> signal \<Rightarrow> 'w state \<Rightarrow> 'w outcome option" where
  "killProcessTree 0 sys target sg s = None"
| "killProcessTree (Suc fuel) sys target sg s =
     (case extractPid target of
        None \<Rightarrow> Some (killDirect target sg s)
      | Some p \<Rightarrow>
          if falsy (Some p) then Some (killDirect target sg s)
          else
            map_option catch_ignore
              (if isWindows sys then Some (taskkill sys p s)
               else
                 and_then_opt
                   (map_option catch_ignore
                      (case call_spawnSync sys ''pgrep'' [''-P'', String_js p] EncodingUtf8 s of
                         (SpawnThrows, s1) \<Rightarrow> Some (Threw s1)
                       | (SpawnReturns None, s1) \<Rightarrow> Some (Returned s1)
                       | (SpawnReturns (Some out), s1) \<Rightarrow>
                           if out = [] then Some (Returned s1)
                           else for_of_opt (\<lambda>childPid. killProcessTree fuel sys (Pid childPid) sg)
                                  (childPids out) s1))
                   (\<lambda>s2. Some (catch_ignore (call_process_kill sys p sg s2)))))"

text \<open>The list that the sweep walks: empty when \<open>pidtree\<close> rejected.\<close>

fun resolved :: "pidtree_result \<Rightarrow> number list" where
  "resolved Rejected = []"
| "resolved (Resolved ds) = ds"

text \<open>
  \<open>killProcessTreeAsync\<close> has one loop, over the list that \<open>pidtree\<close> resolved to, so
  it is total.
\<close>

definition killProcessTreeAsync :: "'w sys \<Rightarrow> 'w target \<Rightarrow> signal \<Rightarrow> 'w state \<Rightarrow> 'w outcome" where
  "killProcessTreeAsync sys target sg s =
     (case extractPid target of
        None \<Rightarrow> killDirect target sg s
      | Some p \<Rightarrow>
          if falsy (Some p) then killDirect target sg s
          else
            catch_ignore
              (if isWindows sys then taskkill sys p s
               else
                 (case call_pidtree sys p s of
                    (r, s1) \<Rightarrow>
                      (let pids = resolved r
                       in and_then
                            (for_of (\<lambda>childPid s'. catch_ignore (call_process_kill sys childPid sg s'))
                               (rev pids) s1)
                            (\<lambda>s2. catch_ignore (call_process_kill sys p sg s2))))))"

section \<open>Reading a trace\<close>

text \<open>The signals sent with \<open>process.kill\<close>, in order, whether delivered or not.\<close>

fun signal_of :: "event \<Rightarrow> (number \<times> signal) list" where
  "signal_of (ProcessKill p sg r) = [(p, sg)]"
| "signal_of e = []"

definition signals :: "event list \<Rightarrow> (number \<times> signal) list" where
  "signals tr = concat (map signal_of tr)"

text \<open>The identifiers that the \<open>pgrep\<close> calls of a trace printed, in order.\<close>

fun listed :: "spawn_result \<Rightarrow> number list" where
  "listed (SpawnReturns (Some out)) = childPids out"
| "listed r = []"

fun discovered_by :: "event \<Rightarrow> number list" where
  "discovered_by (SpawnSync cmd args opts r) = (if cmd = ''pgrep'' then listed r else [])"
| "discovered_by e = []"

definition discovered :: "event list \<Rightarrow> number list" where
  "discovered tr = concat (map discovered_by tr)"

text \<open>The state in which a statement ended.\<close>

fun state_of :: "'w outcome \<Rightarrow> 'w state" where
  "state_of (Returned s) = s"
| "state_of (Threw s) = s"

text \<open>The calls of a trace that delivered a signal.\<close>

fun delivers :: "event \<Rightarrow> bool" where
  "delivers (ProcessKill p sg r) = (r = Completed)"
| "delivers (TargetKill sg r) = (r = Completed)"
| "delivers e = False"

section \<open>Process tables\<close>

text \<open>What \<open>pgrep -P\<close> prints for a list of children: one identifier a line.\<close>

definition pgrep_stdout :: "number list \<Rightarrow> string" where
  "pgrep_stdout ps = concat (map (\<lambda>p. String_js p @ [CHR 0x0A]) ps)"

fun join_lines :: "string list \<Rightarrow> string" where
  "join_lines [] = []"
| "join_lines [l] = l"
| "join_lines (l # m # ls) = l @ CHR 0x0A # join_lines (m # ls)"

text \<open>
  Child discovery that finds nothing: \<open>spawnSync\<close> threw, there was no \<open>stdout\<close>
  (the tool is missing), or \<open>stdout\<close> was empty (no children, or the parent is gone).
\<close>

fun finds_nothing :: "spawn_result \<Rightarrow> bool" where
  "finds_nothing SpawnThrows = True"
| "finds_nothing (SpawnReturns None) = True"
| "finds_nothing (SpawnReturns (Some out)) = (out = [])"

text \<open>A process tree, with the children in the order in which \<open>pgrep\<close> prints them.\<close>

datatype ptree = Node int "ptree list"

fun root_pid :: "ptree \<Rightarrow> int" where
  "root_pid (Node p ts) = p"

fun postorder :: "ptree \<Rightarrow> int list" where
  "postorder (Node p ts) = concat (map postorder ts) @ [p]"

fun nodes :: "ptree \<Rightarrow> nat" where
  "nodes (Node p ts) = Suc (sum_list (map nodes ts))"

text \<open>
  The system shows the tree \<open>t\<close>: whatever else happens, \<open>pgrep -P p\<close> prints the
  children of every node \<open>p\<close> of \<open>t\<close>.
\<close>

fun serves :: "'w sys \<Rightarrow> ptree \<Rightarrow> bool" where
  "serves sys (Node p ts) =
     ((\<forall>w. fst (spawnSync sys ''pgrep'' [''-P'', String_js (Num p)] EncodingUtf8 w) =
            SpawnReturns (Some (pgrep_stdout (map (\<lambda>t. Num (root_pid t)) ts))))
      \<and> (\<forall>t \<in> set ts. serves sys t))"

text \<open>
  The system lists children from a finite table of (parent, child) pairs: every
  identifier that \<open>pgrep -P p\<close> prints, in any world, and that the sweep would
  follow, is a child of \<open>p\<close> in the table.
\<close>

definition lists_within :: "'w sys \<Rightarrow> (number \<times> number) list \<Rightarrow> bool" where
  "lists_within sys table =
     (\<forall>p w out. fst (spawnSync sys ''pgrep'' [''-P'', String_js p] EncodingUtf8 w) = SpawnReturns (Some out)
        \<longrightarrow> (\<forall>c \<in> set (childPids out). \<not> falsy (Some c) \<longrightarrow> (p, c) \<in> set table))"


text \<open>
  The process \<open>p\<close> and its descendants are gone from the table of world \<open>w\<close>: no
  call about \<open>p\<close> changes the world, child discovery finds nothing and a signal to
  \<open>p\<close> is refused.
\<close>

definition gone :: "'w sys \<Rightarrow> number \<Rightarrow> signal \<Rightarrow> 'w \<Rightarrow> bool" where
  "gone sys p sg w =
     (if isWindows sys then
        snd (spawnSync sys ''taskkill'' [''/pid'', String_js p, ''/t'', ''/f''] StdioIgnore w) = w
      else
        finds_nothing (fst (spawnSync sys ''pgrep'' [''-P'', String_js p] EncodingUtf8 w))
        \<and> snd (spawnSync sys ''pgrep'' [''-P'', String_js p] EncodingUtf8 w) = w
        \<and> process_kill sys p sg w = (Raised, w))"

subsection \<open>A simulated system\<close>

text \<open>
  A system with fixed answers and no state, as a test double would give them:
  \<open>pgrep -P p\<close> answers \<open>children p\<close>, any other command has no \<open>stdout\<close>.
\<close>

definition mock ::
  "bool \<Rightarrow> (number \<Rightarrow> spawn_result) \<Rightarrow> (number \<Rightarrow> completion) \<Rightarrow> (number \<Rightarrow> pidtree_result) \<Rightarrow> unit sys" where
  "mock win children sent tree =
     \<lparr>isWindows = win,
      spawnSync = (\<lambda>cmd args opts w.
         if cmd = ''pgrep'' then
           (case args of
              [flag, p] \<Rightarrow> (children (Number_js p), w)
            | _ \<Rightarrow> (SpawnReturns (Some []), w))
         else (SpawnReturns None, w)),
      process_kill = (\<lambda>p sg w. (sent p, w)),
      pidtree = (\<lambda>p w. (tree p, w))\<rparr>"

text \<open>The tree root 100 with children A 101 and B 102, and C 103 the child of A.\<close>

definition example_tree :: ptree where
  "example_tree = Node 100 [Node 101 [Node 103 []], Node 102 []]"

definition example_children :: "number \<Rightarrow> spawn_result" where
  "example_children p =
     (if p = Num 100 then SpawnReturns (Some (pgrep_stdout [Num 101, Num 102]))
      else if p = Num 101 then SpawnReturns (Some (pgrep_stdout [Num 103]))
      else SpawnReturns (Some []))"

definition example_table :: "(number \<times> number) list" where
  "example_table = [(Num 100, Num 101), (Num 100, Num 102), (Num 101, Num 103)]"

definition start :: "unit state" where
  "start = \<lparr>world = (), trace = []\<rparr>"

text \<open>The same double when child discovery throws for every process but the root.\<close>

definition failing_children :: "number \<Rightarrow> spawn_result" where
  "failing_children p =
     (if p = Num 100 then SpawnReturns (Some (pgrep_stdout [Num 101, Num 102])) else SpawnThrows)"

definition failing_sys :: "unit sys" where
  "failing_sys = mock False failing_children (\<lambda>p. Completed) (\<lambda>p. Rejected)"



subsection \<open>A simulated process table\<close>

text \<open>
  A Unix system whose world is the list of live processes, each with the identifier
  of its parent. \<open>pgrep -P p\<close> prints the live children of \<open>p\<close>; a signal to a live
  process is delivered and ends it, a signal to any other identifier is refused;
  \<open>pidtree\<close> lists the live descendants level by level and rejects for a process
  that is not live.
\<close>

type_synonym ptable = "(int \<times> int) list"

definition children_in :: "ptable \<Rightarrow> number \<Rightarrow> number list" where
  "children_in tbl p = map (\<lambda>e. Num (fst e)) (filter (\<lambda>e. Num (snd e) = p) tbl)"

definition alive :: "ptable \<Rightarrow> number \<Rightarrow> bool" where
  "alive tbl p = (p \<in> set (map (\<lambda>e. Num (fst e)) tbl))"

fun descend :: "nat \<Rightarrow> ptable \<Rightarrow> number list \<Rightarrow> number list" where
  "descend 0 tbl front = []"
| "descend (Suc k) tbl front =
     (let next = concat (map (children_in tbl) front)
      in if next = [] then [] else next @ descend k tbl next)"

definition table_sys :: "ptable sys" where
  "table_sys =
     \<lparr>isWindows = False,
      spawnSync = (\<lambda>cmd args opts tbl.
         if cmd = ''pgrep'' then
           (case args of
              [flag, p] \<Rightarrow> (SpawnReturns (Some (pgrep_stdout (children_in tbl (Number_js p)))), tbl)
            | _ \<Rightarrow> (SpawnReturns (Some []), tbl))
         else (SpawnReturns None, tbl)),
      process_kill = (\<lambda>p sg tbl.
         if alive tbl p then (Completed, filter (\<lambda>e. Num (fst e) \<noteq> p) tbl) else (Raised, tbl)),
      pidtree = (\<lambda>p tbl.
         if alive tbl p then (Resolved (descend (length tbl) tbl [p]), tbl) else (Rejected, tbl))\<rparr>"

definition example_table_world :: ptable where
  "example_table_world = [(100, 1), (101, 100), (102, 100), (103, 101)]"

section \<open>Lemmas\<close>


declare String_js.simps [simp del]


lemma dropWhile_hd: "s \<noteq> [] \<Longrightarrow> \<not> P (hd s) \<Longrightarrow> dropWhile P s = s"
  by (cases s) auto

lemma trim_id: "s \<noteq> [] \<Longrightarrow> \<not> is_space (hd s) \<Longrightarrow> \<not> is_space (last s) \<Longrightarrow> trim s = s"
  by (simp add: trim_def dropWhile_hd hd_rev)

lemma is_space_newline: "is_space (CHR 0x0A)"
  by (simp add: is_space_def)

lemma trim_final_newline:
  assumes "s \<noteq> []" "\<not> is_space (hd s)" "\<not> is_space (last s)"
  shows "trim (s @ [CHR 0x0A]) = s"
proof -
  have "dropWhile is_space (s @ [CHR 0x0A]) = s @ [CHR 0x0A]"
    using assms by (intro dropWhile_hd) simp_all
  moreover have "dropWhile is_space (rev s) = rev s"
    using assms by (intro dropWhile_hd) (simp_all add: hd_rev)
  ultimately show ?thesis
    by (simp add: trim_def is_space_newline)
qed

lemma split_no_sep: "sep \<notin> set l \<Longrightarrow> split sep l = [l]"
  by (induction l) auto

lemma split_line: "sep \<notin> set l \<Longrightarrow> split sep (l @ sep # rest) = l # split sep rest"
  by (induction l) auto


lemma digit_val_digit_char: "d < 10 \<Longrightarrow> digit_val (digit_char d) = Some d"
  by (simp add: digit_val_def digit_char_def Let_def)

lemma is_space_no_digit: "is_space c \<Longrightarrow> digit_val c = None"
  by (auto simp: is_space_def digit_val_def)

lemma read_digits_append:
  "read_digits acc (xs @ ys) = (case read_digits acc xs of None \<Rightarrow> None | Some a \<Rightarrow> read_digits a ys)"
  by (induction xs arbitrary: acc) (auto split: option.splits)

lemma read_digits_digits: "read_digits 0 (digits n) = Some n"
proof (induction n rule: digits.induct)
  case (1 n)
  show ?case
  proof (cases "n < 10")
    case True
    then show ?thesis by (simp add: digits.simps [of n] digit_val_digit_char)
  next
    case False
    with 1 have "read_digits 0 (digits (n div 10)) = Some (n div 10)" by simp
    with False show ?thesis
      by (simp add: digits.simps [of n] read_digits_append digit_val_digit_char)
  qed
qed

lemma digits_all_digit: "c \<in> set (digits n) \<Longrightarrow> digit_val c \<noteq> None"
proof (induction n rule: digits.induct)
  case (1 n)
  then show ?case
    by (cases "n < 10") (auto simp: digits.simps [of n] digit_val_digit_char)
qed

lemma digits_not_Nil: "digits n \<noteq> []"
  by (cases "n < 10") (simp_all add: digits.simps [of n])

lemma digits_no_space: "c \<in> set (digits n) \<Longrightarrow> \<not> is_space c"
  using digits_all_digit is_space_no_digit by blast

lemma String_js_no_space: "c \<in> set (String_js p) \<Longrightarrow> \<not> is_space c"
proof (cases p)
  case (Num n)
  assume "c \<in> set (String_js p)"
  with Num have "c = CHR ''-'' \<or> c \<in> set (digits (nat (- n))) \<or> c \<in> set (digits (nat n))"
    by (auto simp: String_js.simps split: if_splits)
  then show ?thesis
    using digits_no_space by (auto simp: is_space_def)
next
  case NaN
  assume "c \<in> set (String_js p)"
  with NaN show ?thesis by (auto simp: String_js.simps is_space_def)
qed

lemma String_js_not_Nil: "String_js p \<noteq> []"
  by (cases p) (simp_all add: String_js.simps digits_not_Nil)

lemma trim_String_js: "trim (String_js p) = String_js p"
  using String_js_not_Nil [of p] String_js_no_space [of _ p]
  by (intro trim_id) simp_all

lemma Number_js_String_js: "Number_js (String_js p) = p"
proof (cases p)
  case NaN
  have "digit_val (CHR ''N'') = None" by (simp add: digit_val_def)
  then have "Number_js ''NaN'' = NaN"
    using trim_String_js [of NaN] by (simp add: String_js.simps Number_js_def)
  with NaN show ?thesis by (simp add: String_js.simps)
next
  case (Num n)
  show ?thesis
  proof (cases "n < 0")
    case True
    have "digit_val (CHR ''-'') = None" by (simp add: digit_val_def)
    with True Num show ?thesis
      using trim_String_js [of p]
      by (simp add: String_js.simps Number_js_def digits_not_Nil read_digits_digits)
  next
    case False
    obtain c cs where d: "digits (nat n) = c # cs"
      using digits_not_Nil [of "nat n"] by (cases "digits (nat n)") auto
    then have "digit_val c \<noteq> None"
      using digits_all_digit [of c "nat n"] by simp
    then have "c \<noteq> CHR ''-''" "c \<noteq> CHR ''+''"
      by (auto simp: digit_val_def)
    moreover have "read_digits 0 (c # cs) = Some (nat n)"
      using read_digits_digits [of "nat n"] d by simp
    ultimately show ?thesis
      using False Num d trim_String_js [of p]
      by (simp add: String_js.simps Number_js_def)
  qed
qed

lemma pgrep_stdout_join:
  "ps \<noteq> [] \<Longrightarrow> pgrep_stdout ps = join_lines (map String_js ps) @ [CHR 0x0A]"
proof (induction ps)
  case Nil
  then show ?case by simp
next
  case (Cons p ps)
  then show ?case
    by (cases ps) (simp_all add: pgrep_stdout_def)
qed

lemma join_lines_ends:
  assumes "ls \<noteq> []" "\<forall>l \<in> set ls. l \<noteq> [] \<and> (\<forall>c \<in> set l. \<not> is_space c)"
  shows "join_lines ls \<noteq> [] \<and> \<not> is_space (hd (join_lines ls)) \<and> \<not> is_space (last (join_lines ls))"
  using assms
proof (induction ls rule: join_lines.induct)
  case 1
  then show ?case by simp
next
  case (2 l)
  then show ?case by simp
next
  case (3 l m ls)
  then show ?case by (cases l) auto
qed

lemma split_join_lines:
  assumes "ls \<noteq> []" "\<forall>l \<in> set ls. CHR 0x0A \<notin> set l"
  shows "split (CHR 0x0A) (join_lines ls) = ls"
  using assms
proof (induction ls rule: join_lines.induct)
  case 1
  then show ?case by simp
next
  case (2 l)
  then show ?case by (simp add: split_no_sep)
next
  case (3 l m ls)
  then show ?case by (simp add: split_line)
qed

lemma childPids_pgrep_stdout: "childPids (pgrep_stdout ps) = ps"
proof (cases "ps = []")
  case True
  then show ?thesis by (simp add: pgrep_stdout_def childPids_def trim_def)
next
  case False
  let ?ls = "map String_js ps"
  have plain: "\<forall>l \<in> set ?ls. l \<noteq> [] \<and> (\<forall>c \<in> set l. \<not> is_space c)"
    by (auto simp: String_js_not_Nil String_js_no_space)
  then have nonl: "\<forall>l \<in> set ?ls. CHR 0x0A \<notin> set l"
    using is_space_newline by blast
  have ends: "join_lines ?ls \<noteq> [] \<and> \<not> is_space (hd (join_lines ?ls)) \<and> \<not> is_space (last (join_lines ?ls))"
    using False plain by (intro join_lines_ends) simp_all
  have "trim (pgrep_stdout ps) = join_lines ?ls"
    using False ends by (simp add: pgrep_stdout_join trim_final_newline)
  moreover have "split (CHR 0x0A) (join_lines ?ls) = ?ls"
    using False nonl by (intro split_join_lines) simp_all
  moreover have "filter (\<lambda>l. l \<noteq> []) ?ls = ?ls"
    using plain by (simp add: filter_id_conv)
  ultimately show ?thesis
    by (simp add: childPids_def o_def Number_js_String_js)
qed



lemma catch_ignore_Returned: "\<exists>s'. catch_ignore x = Returned s'"
  by (cases x) simp_all

lemma killDirect_Returned: "\<exists>s'. killDirect target sg s = Returned s'"
  by (cases target) (auto split: option.splits intro: catch_ignore_Returned)

lemma killProcessTree_Returned:
  "killProcessTree fuel sys target sg s = Some r \<Longrightarrow> \<exists>s'. r = Returned s'"
proof (cases fuel)
  case 0
  assume "killProcessTree fuel sys target sg s = Some r"
  with 0 show ?thesis by simp
next
  case (Suc n)
  assume "killProcessTree fuel sys target sg s = Some r"
  with Suc show ?thesis
    by (auto split: option.splits if_splits intro: killDirect_Returned catch_ignore_Returned)
qed

lemma for_of_opt_mono:
  assumes "\<And>x s r. x \<in> set xs \<Longrightarrow> f x s = Some r \<Longrightarrow> g x s = Some r"
    and "for_of_opt f xs s = Some r"
  shows "for_of_opt g xs s = Some r"
  using assms
proof (induction xs arbitrary: s)
  case Nil
  then show ?case by simp
next
  case (Cons x xs)
  from Cons.prems(2) obtain o1 where o1: "f x s = Some o1"
    by (cases "f x s") auto
  then have g: "g x s = Some o1" using Cons.prems(1) by simp
  show ?case
  proof (cases o1)
    case (Returned s1)
    with o1 Cons.prems(2) have "for_of_opt f xs s1 = Some r" by simp
    then have "for_of_opt g xs s1 = Some r"
      using Cons.IH Cons.prems(1) by simp
    with g Returned show ?thesis by simp
  next
    case (Threw s1)
    with o1 g Cons.prems(2) show ?thesis by auto
  qed
qed




lemma childPids_Nil: "childPids [] = []"
  by (simp add: childPids_def trim_def)

lemma signal_step:
  "catch_ignore (call_process_kill sys p sg s) =
     Returned \<lparr>world = snd (process_kill sys p sg (world s)),
               trace = trace s @ [ProcessKill p sg (fst (process_kill sys p sg (world s)))]\<rparr>"
  by (simp add: call_process_kill_def Let_def split: prod.splits completion.splits)

lemma target_kill_step:
  "catch_ignore (call_target_kill k sg s) =
     Returned \<lparr>world = snd (k sg (world s)),
               trace = trace s @ [TargetKill sg (fst (k sg (world s)))]\<rparr>"
  by (simp add: call_target_kill_def Let_def split: prod.splits completion.splits)

lemma call_spawnSync_eq:
  "call_spawnSync sys cmd args opts s =
     (fst (spawnSync sys cmd args opts (world s)),
      \<lparr>world = snd (spawnSync sys cmd args opts (world s)),
       trace = trace s @ [SpawnSync cmd args opts (fst (spawnSync sys cmd args opts (world s)))]\<rparr>)"
  by (simp add: call_spawnSync_def split: prod.splits)

lemma killProcessTree_falsy:
  "falsy (extractPid target) \<Longrightarrow> killProcessTree (Suc n) sys target sg s = Some (killDirect target sg s)"
  by (auto split: option.splits)

lemma killProcessTree_windows:
  "isWindows sys \<Longrightarrow> extractPid target = Some p \<Longrightarrow> \<not> falsy (Some p) \<Longrightarrow>
   killProcessTree (Suc n) sys target sg s = Some (catch_ignore (taskkill sys p s))"
  by simp

lemma killProcessTree_unix:
  assumes "\<not> isWindows sys" "extractPid target = Some p" "\<not> falsy (Some p)"
  shows "killProcessTree (Suc n) sys target sg s =
     (case call_spawnSync sys ''pgrep'' [''-P'', String_js p] EncodingUtf8 s of
        (r, s1) \<Rightarrow>
          (case for_of_opt (\<lambda>c. killProcessTree n sys (Pid c) sg) (listed r) s1 of
             None \<Rightarrow> None
           | Some out \<Rightarrow> Some (catch_ignore (call_process_kill sys p sg (state_of out)))))"
proof -
  obtain r s1 where c: "call_spawnSync sys ''pgrep'' [''-P'', String_js p] EncodingUtf8 s = (r, s1)"
    by (cases "call_spawnSync sys ''pgrep'' [''-P'', String_js p] EncodingUtf8 s")
  have cc: "\<exists>s'. catch_ignore (catch_ignore x) = Returned s' \<and> catch_ignore x = Returned s'" for x :: "'a outcome"
    by (cases x) auto
  show ?thesis
  proof (cases r)
    case SpawnThrows
    with assms c show ?thesis
      by (simp add: signal_step)
  next
    case (SpawnReturns out)
    show ?thesis
    proof (cases out)
      case None
      with assms c SpawnReturns show ?thesis
        by (simp add: signal_step)
    next
      case (Some ln)
      show ?thesis
      proof (cases "ln = []")
        case True
        with assms c SpawnReturns Some show ?thesis
          by (simp add: signal_step childPids_Nil)
      next
        case False
        show ?thesis
        proof (cases "for_of_opt (\<lambda>c. killProcessTree n sys (Pid c) sg) (childPids ln) s1")
          case None
          with assms c SpawnReturns Some False show ?thesis by simp
        next
          case (Some res)
          with assms c SpawnReturns \<open>out = Some ln\<close> False show ?thesis
           by (cases res) (simp_all add: signal_step)
        qed
      qed
    qed
  qed
qed




declare killProcessTree.simps(2) [simp del]

lemma extractPid_cases:
  obtains "falsy (extractPid target)" | p where "extractPid target = Some p" "\<not> falsy (Some p)"
  by (cases "extractPid target") auto

lemma killProcessTree_Suc_mono:
  "killProcessTree n sys target sg s = Some r \<Longrightarrow> killProcessTree (Suc n) sys target sg s = Some r"
proof (induction n arbitrary: target s r)
  case 0
  then show ?case by simp
next
  case (Suc n)
  show ?case
  proof (cases target rule: extractPid_cases)
    case 1
    with Suc.prems show ?thesis
      by (simp add: killProcessTree_falsy)
  next
    case (2 p)
    show ?thesis
    proof (cases "isWindows sys")
      case True
      with 2 Suc.prems show ?thesis
        by (simp add: killProcessTree_windows)
    next
      case False
      obtain r1 s1 where c: "call_spawnSync sys ''pgrep'' [''-P'', String_js p] EncodingUtf8 s = (r1, s1)"
        by (cases "call_spawnSync sys ''pgrep'' [''-P'', String_js p] EncodingUtf8 s")
      from Suc.prems obtain out where
        l: "for_of_opt (\<lambda>c. killProcessTree n sys (Pid c) sg) (listed r1) s1 = Some out"
        and r: "r = catch_ignore (call_process_kill sys p sg (state_of out))"
        by (auto simp: killProcessTree_unix [OF False 2] c split: option.splits)
      have "for_of_opt (\<lambda>c. killProcessTree (Suc n) sys (Pid c) sg) (listed r1) s1 = Some out"
        using l by (rule for_of_opt_mono [rotated]) (rule Suc.IH)
      then show ?thesis
        by (simp add: killProcessTree_unix [OF False 2] c r)
    qed
  qed
qed

lemma killProcessTree_mono:
  "killProcessTree n sys target sg s = Some r \<Longrightarrow> n \<le> m \<Longrightarrow> killProcessTree m sys target sg s = Some r"
proof (induction m)
  case 0
  then show ?case by simp
next
  case (Suc m)
  show ?case
  proof (cases "n = Suc m")
    case True
    with Suc.prems show ?thesis by simp
  next
    case False
    with Suc.prems have "n \<le> m" by simp
    with Suc show ?thesis by (intro killProcessTree_Suc_mono) simp
  qed
qed





lemma for_of_opt_total:
  assumes "\<And>x s. x \<in> set xs \<Longrightarrow> \<exists>s'. body x s = Some (Returned s')"
  shows "\<exists>s'. for_of_opt body xs s = Some (Returned s')"
  using assms
proof (induction xs arbitrary: s)
  case Nil
  then show ?case by simp
next
  case (Cons x xs)
  then obtain s1 where "body x s = Some (Returned s1)" by fastforce
  moreover have "\<exists>s'. for_of_opt body xs s1 = Some (Returned s')"
    using Cons by simp
  ultimately show ?case by simp
qed

lemma killProcessTree_falsy_Pid:
  "falsy (Some c) \<Longrightarrow> killProcessTree (Suc n) sys (Pid c) sg s = Some (Returned s)"
  by (simp add: killProcessTree_falsy)

lemma lists_withinD:
  assumes "lists_within sys table"
    and "fst (spawnSync sys ''pgrep'' [''-P'', String_js p] EncodingUtf8 w) = SpawnReturns (Some out)"
    and "c \<in> set (childPids out)" and "\<not> falsy (Some c)"
  shows "(p, c) \<in> set table"
  using assms unfolding lists_within_def by blast

lemma sweep_terminates_Pid:
  assumes ac: "acyclic (set table)" and lw: "lists_within sys table"
  shows "\<exists>N. \<forall>sg s. \<exists>s'. killProcessTree N sys (Pid p) sg s = Some (Returned s')"
proof -
  have "wf ((set table)\<inverse>)"
    using ac by (intro finite_acyclic_wf_converse) simp_all
  then show ?thesis
  proof (induction p rule: wf_induct_rule)
    case (less p)
    have "\<forall>c. \<exists>N. (p, c) \<in> set table \<longrightarrow>
        (\<forall>sg s. \<exists>s'. killProcessTree N sys (Pid c) sg s = Some (Returned s'))"
    proof
      fix c
      show "\<exists>N. (p, c) \<in> set table \<longrightarrow>
        (\<forall>sg s. \<exists>s'. killProcessTree N sys (Pid c) sg s = Some (Returned s'))"
      proof (cases "(p, c) \<in> set table")
        case True
        then have "(c, p) \<in> (set table)\<inverse>" by simp
        from less.IH [OF this] show ?thesis by blast
      next
        case False
        then show ?thesis by simp
      qed
    qed
    then have "\<exists>f. \<forall>c. (p, c) \<in> set table \<longrightarrow>
        (\<forall>sg s. \<exists>s'. killProcessTree (f c) sys (Pid c) sg s = Some (Returned s'))"
      by (rule choice)
    then obtain f where f0: "\<forall>c. (p, c) \<in> set table \<longrightarrow>
        (\<forall>sg s. \<exists>s'. killProcessTree (f c) sys (Pid c) sg s = Some (Returned s'))" ..
    have f: "\<exists>s'. killProcessTree (f c) sys (Pid c) sg s = Some (Returned s')"
      if "(p, c) \<in> set table" for c sg s
      using f0 that by simp
    define M where "M = Suc (sum_list (map (\<lambda>e. f (snd e)) table))"
    have child: "\<exists>s'. killProcessTree M sys (Pid c) sg s = Some (Returned s')"
      if "\<not> falsy (Some c) \<longrightarrow> (p, c) \<in> set table" for c sg s
    proof (cases "falsy (Some c)")
      case True
      then show ?thesis unfolding M_def by (simp add: killProcessTree_falsy_Pid)
    next
      case False
      with that have m: "(p, c) \<in> set table" by simp
      then have "f (snd (p, c)) \<in> set (map (\<lambda>e. f (snd e)) table)"
        by force
      then have "f (snd (p, c)) \<le> sum_list (map (\<lambda>e. f (snd e)) table)"
        by (rule member_le_sum_list) simp
      then have le: "f c \<le> M"
        unfolding M_def by simp
      from f [OF m, of sg s] obtain s' where
        "killProcessTree (f c) sys (Pid c) sg s = Some (Returned s')" by blast
      then have "killProcessTree M sys (Pid c) sg s = Some (Returned s')"
        using le by (rule killProcessTree_mono)
      then show ?thesis by blast
    qed
    show ?case
    proof (cases "Pid p :: 'a target" rule: extractPid_cases)
      case 1
      then have "\<forall>sg s. \<exists>s'. killProcessTree (Suc 0) sys (Pid p) sg s = Some (Returned s')"
        by (simp add: killProcessTree_falsy_Pid)
      then show ?thesis by (rule exI)
    next
      case (2 q)
      then have q: "q = p" by simp
      show ?thesis
      proof (cases "isWindows sys")
        case True
        have "\<exists>s'. killProcessTree (Suc 0) sys (Pid p) sg s = Some (Returned s')" for sg s
          using 2 True catch_ignore_Returned [of "taskkill sys p s"]
          by (simp add: q killProcessTree_windows)
        then have "\<forall>sg s. \<exists>s'. killProcessTree (Suc 0) sys (Pid p) sg s = Some (Returned s')"
          by simp
        then show ?thesis by (rule exI)
      next
        case False
        have "\<exists>s'. killProcessTree (Suc M) sys (Pid p) sg s = Some (Returned s')" for sg s
        proof -
          obtain r1 s1 where c: "call_spawnSync sys ''pgrep'' [''-P'', String_js p] EncodingUtf8 s = (r1, s1)"
            by (cases "call_spawnSync sys ''pgrep'' [''-P'', String_js p] EncodingUtf8 s")
          then have r1: "r1 = fst (spawnSync sys ''pgrep'' [''-P'', String_js p] EncodingUtf8 (world s))"
            by (simp add: call_spawnSync_eq)
          have "\<not> falsy (Some c) \<longrightarrow> (p, c) \<in> set table" if "c \<in> set (listed r1)" for c
          proof (cases r1)
            case SpawnThrows
            with that show ?thesis by simp
          next
            case (SpawnReturns out)
            with that obtain ln where "out = Some ln" "c \<in> set (childPids ln)"
              by (cases out) auto
            with SpawnReturns r1 show ?thesis
              using lists_withinD [OF lw, of p "world s" ln c] by simp
          qed
          then have "\<exists>s'. killProcessTree M sys (Pid c) sg s = Some (Returned s')"
            if "c \<in> set (listed r1)" for c s
            using that child by simp
          then have "\<exists>s'. for_of_opt (\<lambda>c. killProcessTree M sys (Pid c) sg) (listed r1) s1 = Some (Returned s')"
            by (rule for_of_opt_total)
          then obtain s2 where
            "for_of_opt (\<lambda>c. killProcessTree M sys (Pid c) sg) (listed r1) s1 = Some (Returned s2)"
            by blast
          then show ?thesis
            using c by (simp add: killProcessTree_unix [OF False 2, unfolded q] signal_step)
        qed
        then have "\<forall>sg s. \<exists>s'. killProcessTree (Suc M) sys (Pid p) sg s = Some (Returned s')"
          by simp
        then show ?thesis by (rule exI)
      qed
    qed
  qed
qed





lemma killProcessTree_as_Pid:
  assumes "extractPid target = Some p" "\<not> falsy (Some p)"
  shows "killProcessTree n sys target sg s = killProcessTree n sys (Pid p) sg s"
proof (cases n)
  case 0
  then show ?thesis by simp
next
  case (Suc m)
  show ?thesis
  proof (cases "isWindows sys")
    case True
    with assms show ?thesis
      unfolding Suc by (simp add: killProcessTree_windows)
  next
    case False
    have "extractPid (Pid p :: 'a target) = Some p" by simp
    with False assms show ?thesis
      unfolding Suc by (simp add: killProcessTree_unix)
  qed
qed


lemma sweep_terminates:
  assumes ac: "acyclic (set table)" and lw: "lists_within sys table"
  shows "\<exists>N s'. killProcessTree N sys target sg s = Some (Returned s')"
proof (cases target rule: extractPid_cases)
  case 1
  then have "killProcessTree (Suc 0) sys target sg s = Some (killDirect target sg s)"
    by (rule killProcessTree_falsy)
  moreover obtain s' where "killDirect target sg s = Returned s'"
    using killDirect_Returned [of target sg s] by blast
  ultimately have "killProcessTree (Suc 0) sys target sg s = Some (Returned s')"
    by simp
  then show ?thesis by (intro exI)
next
  case (2 p)
  from sweep_terminates_Pid [OF ac lw, of p] obtain N s' where
    "killProcessTree N sys (Pid p) sg s = Some (Returned s')" by blast
  then have "killProcessTree N sys target sg s = Some (Returned s')"
    by (simp only: killProcessTree_as_Pid [OF 2])
  then show ?thesis by (intro exI)
qed

lemma signals_append [simp]: "signals (a @ b) = signals a @ signals b"
  by (simp add: signals_def)

lemma discovered_append [simp]: "discovered (a @ b) = discovered a @ discovered b"
  by (simp add: discovered_def)

lemma signals_Nil [simp]: "signals [] = []"
  by (simp add: signals_def)

lemma discovered_Nil [simp]: "discovered [] = []"
  by (simp add: discovered_def)

lemma signals_Cons [simp]: "signals (e # tr) = signal_of e @ signals tr"
  by (simp add: signals_def)

lemma discovered_Cons [simp]: "discovered (e # tr) = discovered_by e @ discovered tr"
  by (simp add: discovered_def)

lemma killDirect_trace:
  "killDirect target sg s = Returned s' \<Longrightarrow>
   \<exists>new. trace s' = trace s @ new \<and> signals new = [] \<and> discovered new = []"
proof (cases target)
  case (Pid n)
  assume "killDirect target sg s = Returned s'"
  with Pid show ?thesis by simp
next
  case (Handle h)
  assume k: "killDirect target sg s = Returned s'"
  show ?thesis
  proof (cases "kill h")
    case None
    with Handle k show ?thesis by simp
  next
    case (Some f)
    with Handle k have "trace s' = trace s @ [TargetKill sg (fst (f sg (world s)))]"
      by (auto simp: target_kill_step)
    then show ?thesis by simp
  qed
qed

lemma for_of_opt_Returned:
  assumes "\<And>c s r. body c s = Some r \<Longrightarrow> \<exists>s'. r = Returned s'"
    and "for_of_opt body cs s = Some r"
  shows "\<exists>s'. r = Returned s'"
  using assms(2)
proof (induction cs arbitrary: s)
  case Nil
  then show ?case by auto
next
  case (Cons c cs)
  then obtain o1 where o1: "body c s = Some o1" by (cases "body c s") auto
  with assms(1) obtain s1 where "o1 = Returned s1" by blast
  with o1 Cons show ?case by simp
qed




lemma loop_counts:
  assumes step: "\<And>c s s'. body c s = Some (Returned s') \<Longrightarrow>
      \<exists>new. trace s' = trace s @ new \<and>
        (\<forall>q. \<not> falsy (Some q) \<longrightarrow>
           count_list (map fst (signals new)) q = (if c = q then 1 else 0) + count_list (discovered new) q)"
    and ret: "\<And>c s r. body c s = Some r \<Longrightarrow> \<exists>s'. r = Returned s'"
    and run: "for_of_opt body cs s = Some (Returned s')"
  shows "\<exists>new. trace s' = trace s @ new \<and>
        (\<forall>q. \<not> falsy (Some q) \<longrightarrow>
           count_list (map fst (signals new)) q = count_list cs q + count_list (discovered new) q)"
  using run
proof (induction cs arbitrary: s)
  case Nil
  then show ?case by simp
next
  case (Cons c cs)
  then obtain o1 where o1: "body c s = Some o1" by (cases "body c s") auto
  with ret obtain s1 where s1: "o1 = Returned s1" by blast
  with o1 Cons.prems have rest: "for_of_opt body cs s1 = Some (Returned s')" by simp
  from step o1 s1 obtain new1 where n1: "trace s1 = trace s @ new1"
    and c1: "\<forall>q. \<not> falsy (Some q) \<longrightarrow>
           count_list (map fst (signals new1)) q = (if c = q then 1 else 0) + count_list (discovered new1) q"
    by blast
  from Cons.IH [OF rest] obtain new2 where n2: "trace s' = trace s1 @ new2"
    and c2: "\<forall>q. \<not> falsy (Some q) \<longrightarrow>
           count_list (map fst (signals new2)) q = count_list cs q + count_list (discovered new2) q"
    by blast
  have "trace s' = trace s @ (new1 @ new2)" using n1 n2 by simp
  moreover have "\<forall>q. \<not> falsy (Some q) \<longrightarrow>
           count_list (map fst (signals (new1 @ new2))) q
             = count_list (c # cs) q + count_list (discovered (new1 @ new2)) q"
    using c1 c2 by simp
  ultimately show ?case by blast
qed




lemma sweep_counts:
  assumes unix: "\<not> isWindows sys"
  shows "killProcessTree n sys target sg s = Some (Returned s') \<Longrightarrow>
   \<exists>new. trace s' = trace s @ new \<and>
     (\<forall>q. \<not> falsy (Some q) \<longrightarrow>
        count_list (map fst (signals new)) q
          = (if extractPid target = Some q then 1 else 0) + count_list (discovered new) q)"
proof (induction n arbitrary: target s s')
  case 0
  then show ?case by simp
next
  case (Suc n)
  show ?case
  proof (cases target rule: extractPid_cases)
    case 1
    with Suc.prems have "killDirect target sg s = Returned s'"
      by (simp add: killProcessTree_falsy)
    then obtain new where "trace s' = trace s @ new" "signals new = []" "discovered new = []"
      using killDirect_trace by blast
    moreover have "extractPid target \<noteq> Some q" if "\<not> falsy (Some q)" for q
      using 1 that by auto
    ultimately show ?thesis by auto
  next
    case (2 p)
    obtain r1 s1 where c: "call_spawnSync sys ''pgrep'' [''-P'', String_js p] EncodingUtf8 s = (r1, s1)"
      by (cases "call_spawnSync sys ''pgrep'' [''-P'', String_js p] EncodingUtf8 s")
    then have t1: "trace s1 = trace s @ [SpawnSync ''pgrep'' [''-P'', String_js p] EncodingUtf8 r1]"
      by (auto simp: call_spawnSync_eq)
    from Suc.prems obtain out where
      l: "for_of_opt (\<lambda>c. killProcessTree n sys (Pid c) sg) (listed r1) s1 = Some out"
      and r: "Returned s' = catch_ignore (call_process_kill sys p sg (state_of out))"
      by (auto simp: killProcessTree_unix [OF unix 2] c split: option.splits)
    from l obtain s2 where s2: "out = Returned s2"
      using for_of_opt_Returned [of "\<lambda>c. killProcessTree n sys (Pid c) sg"] killProcessTree_Returned
      by blast
    have "\<exists>new. trace s2 = trace s1 @ new \<and>
        (\<forall>q. \<not> falsy (Some q) \<longrightarrow>
           count_list (map fst (signals new)) q = count_list (listed r1) q + count_list (discovered new) q)"
    proof (rule loop_counts [where body = "\<lambda>c. killProcessTree n sys (Pid c) sg"])
      show "for_of_opt (\<lambda>c. killProcessTree n sys (Pid c) sg) (listed r1) s1 = Some (Returned s2)"
        using l s2 by simp
    next
      fix c s r
      assume "killProcessTree n sys (Pid c) sg s = Some r"
      then show "\<exists>s'. r = Returned s'" by (rule killProcessTree_Returned)
    next
      fix c s s'
      assume "killProcessTree n sys (Pid c) sg s = Some (Returned s')"
      from Suc.IH [OF this] show "\<exists>new. trace s' = trace s @ new \<and>
        (\<forall>q. \<not> falsy (Some q) \<longrightarrow>
           count_list (map fst (signals new)) q = (if c = q then 1 else 0) + count_list (discovered new) q)"
        by simp
    qed
    then obtain new2 where n2: "trace s2 = trace s1 @ new2"
      and c2: "\<forall>q. \<not> falsy (Some q) \<longrightarrow>
           count_list (map fst (signals new2)) q = count_list (listed r1) q + count_list (discovered new2) q"
      by blast
    let ?k = "ProcessKill p sg (fst (process_kill sys p sg (world s2)))"
    let ?new = "SpawnSync ''pgrep'' [''-P'', String_js p] EncodingUtf8 r1 # new2 @ [?k]"
    from r s2 have "trace s' = trace s2 @ [?k]"
      by (simp add: signal_step)
    with t1 n2 have "trace s' = trace s @ ?new" by simp
    moreover have "\<forall>q. \<not> falsy (Some q) \<longrightarrow>
        count_list (map fst (signals ?new)) q
          = (if extractPid target = Some q then 1 else 0) + count_list (discovered ?new) q"
      using c2 2 by auto
    ultimately show ?thesis by blast
  qed
qed





lemma loop_postorder:
  assumes step: "\<And>t s. t \<in> set ts \<Longrightarrow>
      \<exists>s'. killProcessTree m sys (Pid (Num (root_pid t))) sg s = Some (Returned s') \<and>
           signals (trace s') = signals (trace s) @ map (\<lambda>p. (Num p, sg)) (postorder t)"
  shows "\<exists>s'. for_of_opt (\<lambda>c. killProcessTree m sys (Pid c) sg) (map (\<lambda>t. Num (root_pid t)) ts) s
             = Some (Returned s') \<and>
           signals (trace s') = signals (trace s) @ map (\<lambda>p. (Num p, sg)) (concat (map postorder ts))"
  using step
proof (induction ts arbitrary: s)
  case Nil
  then show ?case by simp
next
  case (Cons t ts)
  from Cons.prems [of t s] obtain s1 where
    a: "killProcessTree m sys (Pid (Num (root_pid t))) sg s = Some (Returned s1)"
    and b: "signals (trace s1) = signals (trace s) @ map (\<lambda>p. (Num p, sg)) (postorder t)"
    by auto
  have "\<exists>s'. for_of_opt (\<lambda>c. killProcessTree m sys (Pid c) sg) (map (\<lambda>t. Num (root_pid t)) ts) s1
             = Some (Returned s') \<and>
           signals (trace s') = signals (trace s1) @ map (\<lambda>p. (Num p, sg)) (concat (map postorder ts))"
    by (rule Cons.IH) (simp add: Cons.prems)
  then obtain s2 where
    c: "for_of_opt (\<lambda>c. killProcessTree m sys (Pid c) sg) (map (\<lambda>t. Num (root_pid t)) ts) s1
             = Some (Returned s2)"
    and d: "signals (trace s2) = signals (trace s1) @ map (\<lambda>p. (Num p, sg)) (concat (map postorder ts))"
    by blast
  from a c have "for_of_opt (\<lambda>c. killProcessTree m sys (Pid c) sg)
      (map (\<lambda>t. Num (root_pid t)) (t # ts)) s = Some (Returned s2)"
    by simp
  moreover from b d have "signals (trace s2) =
      signals (trace s) @ map (\<lambda>p. (Num p, sg)) (concat (map postorder (t # ts)))"
    by simp
  ultimately show ?case by blast
qed

lemma sweep_postorder:
  assumes unix: "\<not> isWindows sys"
  shows "serves sys t \<Longrightarrow> \<forall>p \<in> set (postorder t). 0 < p \<Longrightarrow> nodes t \<le> n \<Longrightarrow>
     \<exists>s'. killProcessTree n sys (Pid (Num (root_pid t))) sg s = Some (Returned s') \<and>
          signals (trace s') = signals (trace s) @ map (\<lambda>p. (Num p, sg)) (postorder t)"
proof (induction t arbitrary: n s)
  case (Node p ts)
  from Node.prems(3) obtain m where n: "n = Suc m" and m: "sum_list (map nodes ts) \<le> m"
    by (cases n) auto
  from Node.prems(2) have truthy: "\<not> falsy (Some (Num p))" by simp
  have ex: "extractPid (Pid (Num p) :: 'a target) = Some (Num p)" by simp
  define r1 where "r1 = fst (spawnSync sys ''pgrep'' [''-P'', String_js (Num p)] EncodingUtf8 (world s))"
  define s1 where "s1 = snd (call_spawnSync sys ''pgrep'' [''-P'', String_js (Num p)] EncodingUtf8 s)"
  have c: "call_spawnSync sys ''pgrep'' [''-P'', String_js (Num p)] EncodingUtf8 s = (r1, s1)"
    by (simp add: r1_def s1_def call_spawnSync_eq)
  have "r1 = SpawnReturns (Some (pgrep_stdout (map (\<lambda>t. Num (root_pid t)) ts)))"
    using Node.prems(1) by (simp add: r1_def)
  then have l: "listed r1 = map (\<lambda>t. Num (root_pid t)) ts"
    by (simp add: childPids_pgrep_stdout)
  have t1: "signals (trace s1) = signals (trace s)"
    by (simp add: s1_def call_spawnSync_eq)
  have "\<exists>s'. for_of_opt (\<lambda>c. killProcessTree m sys (Pid c) sg) (map (\<lambda>t. Num (root_pid t)) ts) s1
             = Some (Returned s') \<and>
           signals (trace s') = signals (trace s1) @ map (\<lambda>p. (Num p, sg)) (concat (map postorder ts))"
  proof (rule loop_postorder)
    fix t s
    assume t: "t \<in> set ts"
    then have "nodes t \<le> sum_list (map nodes ts)"
      by (intro member_le_sum_list) simp_all
    with m have "nodes t \<le> m" by simp
    moreover have "serves sys t" using Node.prems(1) t by simp
    moreover have "\<forall>p \<in> set (postorder t). 0 < p" using Node.prems(2) t by auto
    ultimately show "\<exists>s'. killProcessTree m sys (Pid (Num (root_pid t))) sg s = Some (Returned s') \<and>
           signals (trace s') = signals (trace s) @ map (\<lambda>p. (Num p, sg)) (postorder t)"
      using Node.IH [OF t] by blast
  qed
  then obtain s2 where
    loop: "for_of_opt (\<lambda>c. killProcessTree m sys (Pid c) sg) (listed r1) s1 = Some (Returned s2)"
    and t2: "signals (trace s2) = signals (trace s1) @ map (\<lambda>p. (Num p, sg)) (concat (map postorder ts))"
    unfolding l by blast
  let ?s3 = "\<lparr>world = snd (process_kill sys (Num p) sg (world s2)),
             trace = trace s2 @ [ProcessKill (Num p) sg (fst (process_kill sys (Num p) sg (world s2)))]\<rparr>"
  have "killProcessTree n sys (Pid (Num p)) sg s = Some (Returned ?s3)"
    unfolding n by (simp add: killProcessTree_unix [OF unix ex truthy] c loop signal_step)
  moreover have "signals (trace ?s3) = signals (trace s) @ map (\<lambda>p. (Num p, sg)) (postorder (Node p ts))"
    using t1 t2 by simp
  ultimately show ?case by auto
qed




lemma taskkill_step:
  "catch_ignore (taskkill sys p s) =
     Returned \<lparr>world = snd (spawnSync sys ''taskkill'' [''/pid'', String_js p, ''/t'', ''/f''] StdioIgnore (world s)),
               trace = trace s @ [SpawnSync ''taskkill'' [''/pid'', String_js p, ''/t'', ''/f''] StdioIgnore
                 (fst (spawnSync sys ''taskkill'' [''/pid'', String_js p, ''/t'', ''/f''] StdioIgnore (world s)))]\<rparr>"
  by (simp add: taskkill_def call_spawnSync_eq split: spawn_result.splits)

lemma killDirect_Handle:
  "kill h = Some k \<Longrightarrow>
   killDirect (Handle h) sg s =
     Returned \<lparr>world = snd (k sg (world s)), trace = trace s @ [TargetKill sg (fst (k sg (world s)))]\<rparr>"
  by (simp add: target_kill_step)

lemma async_falsy:
  "falsy (extractPid target) \<Longrightarrow> killProcessTreeAsync sys target sg s = killDirect target sg s"
  by (auto simp: killProcessTreeAsync_def split: option.splits)

lemma async_windows:
  "isWindows sys \<Longrightarrow> extractPid target = Some p \<Longrightarrow> \<not> falsy (Some p) \<Longrightarrow>
   killProcessTreeAsync sys target sg s = catch_ignore (taskkill sys p s)"
  by (simp add: killProcessTreeAsync_def)

lemma async_unix:
  "\<not> isWindows sys \<Longrightarrow> extractPid target = Some p \<Longrightarrow> \<not> falsy (Some p) \<Longrightarrow>
   killProcessTreeAsync sys target sg s =
     catch_ignore
       (and_then
          (for_of (\<lambda>c s'. catch_ignore (call_process_kill sys c sg s'))
             (rev (resolved (fst (pidtree sys p (world s)))))
             \<lparr>world = snd (pidtree sys p (world s)),
              trace = trace s @ [Pidtree p (fst (pidtree sys p (world s)))]\<rparr>)
          (\<lambda>s2. catch_ignore (call_process_kill sys p sg s2)))"
  by (cases "pidtree sys p (world s)"; cases "fst (pidtree sys p (world s))")
     (simp_all add: killProcessTreeAsync_def call_pidtree_def signal_step)

lemma kill_loop:
  "\<exists>s' rs. for_of (\<lambda>c s'. catch_ignore (call_process_kill sys c sg s')) cs s = Returned s'
      \<and> length rs = length cs
      \<and> trace s' = trace s @ map2 (\<lambda>q r. ProcessKill q sg r) cs rs"
proof (induction cs arbitrary: s)
  case Nil
  then show ?case by simp
next
  case (Cons c cs)
  let ?r = "fst (process_kill sys c sg (world s))"
  let ?s1 = "\<lparr>world = snd (process_kill sys c sg (world s)), trace = trace s @ [ProcessKill c sg ?r]\<rparr>"
  from Cons [of ?s1] obtain s' rs where
    a: "for_of (\<lambda>c s'. catch_ignore (call_process_kill sys c sg s')) cs ?s1 = Returned s'"
    and b: "length rs = length cs"
    and c: "trace s' = trace ?s1 @ map2 (\<lambda>q r. ProcessKill q sg r) cs rs"
    by blast
  have "for_of (\<lambda>c s'. catch_ignore (call_process_kill sys c sg s')) (c # cs) s = Returned s'"
    using a by (simp add: signal_step)
  moreover have "length (?r # rs) = length (c # cs)" using b by simp
  moreover have "trace s' = trace s @ map2 (\<lambda>q r. ProcessKill q sg r) (c # cs) (?r # rs)"
    using c by simp
  ultimately show ?case by blast
qed



lemma isWindows_mock [simp]: "isWindows (mock win children sent tree) = win"
  by (simp add: mock_def)

lemma spawnSync_mock_pgrep [simp]:
  "spawnSync (mock win children sent tree) ''pgrep'' [flag, a] opts w = (children (Number_js a), w)"
  by (simp add: mock_def)

lemma spawnSync_mock_taskkill [simp]:
  "spawnSync (mock win children sent tree) ''taskkill'' args opts w = (SpawnReturns None, w)"
  by (simp add: mock_def)

lemma process_kill_mock [simp]: "process_kill (mock win children sent tree) p sg w = (sent p, w)"
  by (simp add: mock_def)

lemma pidtree_mock [simp]: "pidtree (mock win children sent tree) p w = (tree p, w)"
  by (simp add: mock_def)


lemma String_js_100: "String_js (Num 100) = ''100''"
  by code_simp


lemma pgrep_stdout_Nil [simp]: "pgrep_stdout [] = []"
  by (simp add: pgrep_stdout_def)

lemma serves_example:
  "serves (mock win example_children sent tree) example_tree"
  by (simp add: example_tree_def example_children_def Number_js_String_js)

lemma positive_example: "\<forall>p \<in> set (postorder example_tree). 0 < p"
  by (simp add: example_tree_def)

lemma acyclic_example: "acyclic (set example_table)"
proof (rule acyclicI_order [where f = "\<lambda>x. case x of Num n \<Rightarrow> - n | NaN \<Rightarrow> 0"])
  fix a b
  assume "(a, b) \<in> set example_table"
  then show "(case b of Num n \<Rightarrow> - n | NaN \<Rightarrow> 0) < (case a of Num n \<Rightarrow> - n | NaN \<Rightarrow> 0)"
    by (auto simp: example_table_def)
qed

lemma lists_within_example:
  "lists_within (mock win example_children sent tree) example_table"
  unfolding lists_within_def
proof (intro allI impI ballI)
  fix p w out c
  assume "fst (spawnSync (mock win example_children sent tree) ''pgrep'' [''-P'', String_js p] EncodingUtf8 w)
            = SpawnReturns (Some out)"
    and c: "c \<in> set (childPids out)"
  then have "example_children p = SpawnReturns (Some out)"
    by (simp add: Number_js_String_js)
  then consider "p = Num 100" "out = pgrep_stdout [Num 101, Num 102]"
    | "p = Num 101" "out = pgrep_stdout [Num 103]"
    | "out = []"
    by (auto simp: example_children_def split: if_splits)
  then show "(p, c) \<in> set example_table"
  proof cases
    case 1
    with c show ?thesis by (auto simp: childPids_pgrep_stdout example_table_def)
  next
    case 2
    with c show ?thesis by (auto simp: childPids_pgrep_stdout example_table_def)
  next
    case 3
    with c show ?thesis by (simp add: childPids_Nil)
  qed
qed

lemma example_sweep:
  "killProcessTree 3 (mock False example_children (\<lambda>p. Completed) (\<lambda>p. Rejected)) (Pid (Num 100)) ''SIGKILL'' start
   = Some (Returned \<lparr>world = (), trace =
         [SpawnSync ''pgrep'' [''-P'', ''100''] EncodingUtf8 (SpawnReturns (Some (pgrep_stdout [Num 101, Num 102]))),
          SpawnSync ''pgrep'' [''-P'', ''101''] EncodingUtf8 (SpawnReturns (Some (pgrep_stdout [Num 103]))),
          SpawnSync ''pgrep'' [''-P'', ''103''] EncodingUtf8 (SpawnReturns (Some [])),
          ProcessKill (Num 103) ''SIGKILL'' Completed,
          ProcessKill (Num 101) ''SIGKILL'' Completed,
          SpawnSync ''pgrep'' [''-P'', ''102''] EncodingUtf8 (SpawnReturns (Some [])),
          ProcessKill (Num 102) ''SIGKILL'' Completed,
          ProcessKill (Num 100) ''SIGKILL'' Completed]\<rparr>)"
  by code_simp


lemma finds_nothing_listed: "finds_nothing r \<Longrightarrow> listed r = []"
  by (cases r rule: finds_nothing.cases) (simp_all add: childPids_Nil)

lemma sweep_leaf:
  assumes "\<not> isWindows sys" and "extractPid target = Some p" and "\<not> falsy (Some p)"
    and "finds_nothing (fst (spawnSync sys ''pgrep'' [''-P'', String_js p] EncodingUtf8 (world s)))"
  shows "killProcessTree (Suc fuel) sys target sg s =
     Some (Returned
       \<lparr>world = snd (process_kill sys p sg
                  (snd (spawnSync sys ''pgrep'' [''-P'', String_js p] EncodingUtf8 (world s)))),
        trace = trace s @
          [SpawnSync ''pgrep'' [''-P'', String_js p] EncodingUtf8
             (fst (spawnSync sys ''pgrep'' [''-P'', String_js p] EncodingUtf8 (world s))),
           ProcessKill p sg (fst (process_kill sys p sg
                  (snd (spawnSync sys ''pgrep'' [''-P'', String_js p] EncodingUtf8 (world s)))))]\<rparr>)"
  using assms(4)
  by (simp add: killProcessTree_unix [OF assms(1-3)] call_spawnSync_eq finds_nothing_listed signal_step)

lemma String_js_101: "String_js (Num 101) = ''101''"
  by code_simp

lemma failing_sweep:
  "killProcessTree 3 failing_sys (Pid (Num 100)) ''SIGKILL'' start
   = Some (Returned \<lparr>world = (), trace =
         [SpawnSync ''pgrep'' [''-P'', ''100''] EncodingUtf8 (SpawnReturns (Some (pgrep_stdout [Num 101, Num 102]))),
          SpawnSync ''pgrep'' [''-P'', ''101''] EncodingUtf8 SpawnThrows,
          ProcessKill (Num 101) ''SIGKILL'' Completed,
          SpawnSync ''pgrep'' [''-P'', ''102''] EncodingUtf8 SpawnThrows,
          ProcessKill (Num 102) ''SIGKILL'' Completed,
          ProcessKill (Num 100) ''SIGKILL'' Completed]\<rparr>)"
  by code_simp

lemma table_sweep:
  "killProcessTree 3 table_sys (Pid (Num 100)) ''SIGKILL'' \<lparr>world = example_table_world, trace = []\<rparr>
   = Some (Returned \<lparr>world = [], trace =
         [SpawnSync ''pgrep'' [''-P'', ''100''] EncodingUtf8 (SpawnReturns (Some (pgrep_stdout [Num 101, Num 102]))),
          SpawnSync ''pgrep'' [''-P'', ''101''] EncodingUtf8 (SpawnReturns (Some (pgrep_stdout [Num 103]))),
          SpawnSync ''pgrep'' [''-P'', ''103''] EncodingUtf8 (SpawnReturns (Some [])),
          ProcessKill (Num 103) ''SIGKILL'' Completed,
          ProcessKill (Num 101) ''SIGKILL'' Completed,
          SpawnSync ''pgrep'' [''-P'', ''102''] EncodingUtf8 (SpawnReturns (Some [])),
          ProcessKill (Num 102) ''SIGKILL'' Completed,
          ProcessKill (Num 100) ''SIGKILL'' Completed]\<rparr>)"
  by code_simp

lemma gone_empty_table: "\<not> falsy (Some p) \<Longrightarrow> gone table_sys p sg []"
  by (simp add: gone_def table_sys_def children_in_def alive_def)










section \<open>Properties of the specification\<close>

text \<open>
  \<^bold>\<open>C1.\<close> On the Unix branch the synchronous sweep signals in post-order. For every
  process tree with positive identifiers that the system shows through \<open>pgrep -P\<close>,
  the call on the root returns, and the signals it sent are, in order, the post-order
  listing of the tree, each with the signal requested: the children's subtrees in the
  order \<open>pgrep\<close> printed them, every node after all of its descendants, the root last.
\<close>

theorem C1_sync_postorder:
  assumes "\<not> isWindows sys" and "serves sys t" and "\<forall>p \<in> set (postorder t). 0 < p"
  shows "\<exists>fuel s'. killProcessTree fuel sys (Pid (Num (root_pid t))) sg s = Some (Returned s')
           \<and> signals (trace s') = signals (trace s) @ map (\<lambda>p. (Num p, sg)) (postorder t)"
  using sweep_postorder [OF assms order_refl] by blast

text \<open>
  The tree root 100 with children A 101 and B 102, C 103 the child of A: the signals
  go to C, A, B and the root, in this order; the whole trace of the call, at depth 3,
  shows that nothing is sent to the root before C.
\<close>

theorem C1_sync_postorder_witness:
  "\<not> isWindows (mock False example_children (\<lambda>p. Completed) (\<lambda>p. Rejected))
   \<and> serves (mock False example_children (\<lambda>p. Completed) (\<lambda>p. Rejected)) example_tree
   \<and> list_all (\<lambda>p. 0 < p) (postorder example_tree)
   \<and> (\<exists>fuel s'. killProcessTree fuel (mock False example_children (\<lambda>p. Completed) (\<lambda>p. Rejected))
                    (Pid (Num 100)) ''SIGKILL'' start = Some (Returned s')
          \<and> signals (trace s') = [(Num 103, ''SIGKILL''), (Num 101, ''SIGKILL''),
                                   (Num 102, ''SIGKILL''), (Num 100, ''SIGKILL'')])
   \<and> killProcessTree 3 (mock False example_children (\<lambda>p. Completed) (\<lambda>p. Rejected))
         (Pid (Num 100)) ''SIGKILL'' start
       = Some (Returned \<lparr>world = (), trace =
           [SpawnSync ''pgrep'' [''-P'', ''100''] EncodingUtf8
              (SpawnReturns (Some (pgrep_stdout [Num 101, Num 102]))),
            SpawnSync ''pgrep'' [''-P'', ''101''] EncodingUtf8
              (SpawnReturns (Some (pgrep_stdout [Num 103]))),
            SpawnSync ''pgrep'' [''-P'', ''103''] EncodingUtf8 (SpawnReturns (Some [])),
            ProcessKill (Num 103) ''SIGKILL'' Completed,
            ProcessKill (Num 101) ''SIGKILL'' Completed,
            SpawnSync ''pgrep'' [''-P'', ''102''] EncodingUtf8 (SpawnReturns (Some [])),
            ProcessKill (Num 102) ''SIGKILL'' Completed,
            ProcessKill (Num 100) ''SIGKILL'' Completed]\<rparr>)"
proof -
  let ?M = "mock False example_children (\<lambda>p. Completed) (\<lambda>p. Rejected)"
  have h1: "\<not> isWindows ?M" by simp
  have h2: "serves ?M example_tree" by (rule serves_example)
  have h3: "\<forall>p \<in> set (postorder example_tree). 0 < p" by (rule positive_example)
  from C1_sync_postorder [OF h1 h2 h3, of "''SIGKILL''" start]
  have "\<exists>fuel s'. killProcessTree fuel ?M (Pid (Num 100)) ''SIGKILL'' start = Some (Returned s')
          \<and> signals (trace s') = [(Num 103, ''SIGKILL''), (Num 101, ''SIGKILL''),
                                   (Num 102, ''SIGKILL''), (Num 100, ''SIGKILL'')]"
    by (simp add: example_tree_def start_def)
  moreover have "list_all (\<lambda>p. 0 < p) (postorder example_tree)"
    using h3 by (simp add: list_all_iff)
  ultimately show ?thesis
    using h1 h2 example_sweep by blast
qed




text \<open>
  \<^bold>\<open>C3.\<close> On the Unix branch the asynchronous entry point asks \<open>pidtree\<close> once for
  the flat list of descendants, then sends the signal to that list in the reverse of
  the order returned (to nothing, if \<open>pidtree\<close> rejected), and to the root identifier
  last. The trace grows by exactly these calls: one \<open>pidtree\<close>, then one
  \<open>process.kill\<close> for each identifier of the reversed list followed by the root.
\<close>

theorem C3_async_reverse_order:
  assumes "\<not> isWindows sys" and "extractPid target = Some p" and "\<not> falsy (Some p)"
  shows "\<exists>s' rs. killProcessTreeAsync sys target sg s = Returned s'
           \<and> length rs = Suc (length (resolved (fst (pidtree sys p (world s)))))
           \<and> trace s' = trace s @ Pidtree p (fst (pidtree sys p (world s)))
                # map2 (\<lambda>q r. ProcessKill q sg r)
                    (rev (resolved (fst (pidtree sys p (world s)))) @ [p]) rs"
proof -
  let ?ds = "resolved (fst (pidtree sys p (world s)))"
  let ?s1 = "\<lparr>world = snd (pidtree sys p (world s)),
             trace = trace s @ [Pidtree p (fst (pidtree sys p (world s)))]\<rparr>"
  from kill_loop [of sys sg "rev ?ds" ?s1] obtain s2 rs where
    a: "for_of (\<lambda>c s'. catch_ignore (call_process_kill sys c sg s')) (rev ?ds) ?s1 = Returned s2"
    and b: "length rs = length (rev ?ds)"
    and c: "trace s2 = trace ?s1 @ map2 (\<lambda>q r. ProcessKill q sg r) (rev ?ds) rs"
    by blast
  let ?r = "fst (process_kill sys p sg (world s2))"
  let ?s3 = "\<lparr>world = snd (process_kill sys p sg (world s2)), trace = trace s2 @ [ProcessKill p sg ?r]\<rparr>"
  have "killProcessTreeAsync sys target sg s = Returned ?s3"
    using a by (simp add: async_unix [OF assms] signal_step)
  moreover have "length (rs @ [?r]) = Suc (length ?ds)" using b by simp
  moreover have "trace ?s3 = trace s @ Pidtree p (fst (pidtree sys p (world s)))
       # map2 (\<lambda>q r. ProcessKill q sg r) (rev ?ds @ [p]) (rs @ [?r])"
    using b c by simp
  ultimately show ?thesis by blast
qed

text \<open>
  The descendant list [root, A, B, C] = [100, 101, 102, 103]: the signals go to C, B,
  A and the root as listed, and then to the root identifier, which comes last.
\<close>

theorem C3_async_reverse_order_witness:
  "\<not> isWindows (mock False example_children (\<lambda>p. Completed)
                  (\<lambda>p. Resolved [Num 100, Num 101, Num 102, Num 103]))
   \<and> extractPid (Pid (Num 100) :: unit target) = Some (Num 100)
   \<and> \<not> falsy (Some (Num 100))
   \<and> (\<exists>s'. killProcessTreeAsync
              (mock False example_children (\<lambda>p. Completed)
                 (\<lambda>p. Resolved [Num 100, Num 101, Num 102, Num 103]))
              (Pid (Num 100)) ''SIGKILL'' start = Returned s'
          \<and> signals (trace s') = [(Num 103, ''SIGKILL''), (Num 102, ''SIGKILL''),
               (Num 101, ''SIGKILL''), (Num 100, ''SIGKILL''), (Num 100, ''SIGKILL'')]
          \<and> hd (trace s') = Pidtree (Num 100) (Resolved [Num 100, Num 101, Num 102, Num 103])
          \<and> length (trace s') = 6)"
proof -
  let ?M = "mock False example_children (\<lambda>p. Completed)
              (\<lambda>p. Resolved [Num 100, Num 101, Num 102, Num 103])"
  have h1: "\<not> isWindows ?M" by simp
  have h2: "extractPid (Pid (Num 100) :: unit target) = Some (Num 100)" by simp
  have h3: "\<not> falsy (Some (Num 100))" by simp
  from C3_async_reverse_order [OF h1 h2 h3, of "''SIGKILL''" start]
  obtain s' rs where a: "killProcessTreeAsync ?M (Pid (Num 100)) ''SIGKILL'' start = Returned s'"
    and b: "length rs = Suc (Suc (Suc (Suc (Suc 0))))"
    and c: "trace s' = Pidtree (Num 100) (Resolved [Num 100, Num 101, Num 102, Num 103])
              # map2 (\<lambda>q r. ProcessKill q ''SIGKILL'' r)
                  [Num 103, Num 102, Num 101, Num 100, Num 100] rs"
    by (auto simp: start_def)
  from b obtain r1 r2 r3 r4 r5 where "rs = [r1, r2, r3, r4, r5]"
    by (auto simp: length_Suc_conv)
  with c have "signals (trace s') = [(Num 103, ''SIGKILL''), (Num 102, ''SIGKILL''),
               (Num 101, ''SIGKILL''), (Num 100, ''SIGKILL''), (Num 100, ''SIGKILL'')]"
    and "hd (trace s') = Pidtree (Num 100) (Resolved [Num 100, Num 101, Num 102, Num 103])"
    and "length (trace s') = 6"
    by simp_all
  with a h1 h2 h3 show ?thesis by blast
qed

text \<open>
  \<^bold>\<open>C4.\<close> The normalizer (lines 32-37 and 92-97) is a function of the reference alone: a
  bare number comes back unchanged, a handle gives its \<open>pid\<close> when the property is
  there and holds a number, and nothing otherwise. It takes no state and returns none,
  and a reference with neither identifier nor \<open>kill\<close> leaves both entry points without
  a single call.
\<close>

theorem C4_normalizer:
  "extractPid (Pid n) = Some n
   \<and> extractPid (Handle h) = Option.bind (pid h) (\<lambda>v. v)
   \<and> extractPid (Handle \<lparr>pid = Some (Some n), kill = k\<rparr>) = Some n
   \<and> extractPid (Handle \<lparr>pid = Some None, kill = k\<rparr>) = None
   \<and> extractPid (Handle \<lparr>pid = None, kill = k\<rparr>) = None
   \<and> killProcessTree (Suc fuel) sys (Handle \<lparr>pid = None, kill = None\<rparr>) sg s = Some (Returned s)
   \<and> killProcessTreeAsync sys (Handle \<lparr>pid = None, kill = None\<rparr>) sg s = Returned s"
  by (cases "pid h") (simp_all add: killProcessTree_falsy async_falsy)

text \<open>
  \<^bold>\<open>C5.\<close> A handle that shows no usable identifier but has a \<open>kill\<close>: each entry point
  calls that \<open>kill\<close> exactly once, with the signal it was given, returns whether or
  not the call threw, and makes no other call (the trace grows by that one event).
\<close>

theorem C5_fallback_direct_kill:
  assumes "falsy (extractPid (Handle h))" and "kill h = Some k"
  shows "killProcessTree (Suc fuel) sys (Handle h) sg s
           = Some (Returned \<lparr>world = snd (k sg (world s)),
                             trace = trace s @ [TargetKill sg (fst (k sg (world s)))]\<rparr>)
         \<and> killProcessTreeAsync sys (Handle h) sg s
           = Returned \<lparr>world = snd (k sg (world s)),
                       trace = trace s @ [TargetKill sg (fst (k sg (world s)))]\<rparr>"
  using assms
  by (simp add: killProcessTree_falsy async_falsy target_kill_step del: extractPid.simps)

theorem C5_fallback_direct_kill_witness:
  "falsy (extractPid (Handle \<lparr>pid = Some None, kill = Some (\<lambda>sg w. (Raised, w))\<rparr>))
   \<and> kill \<lparr>pid = Some None, kill = Some (\<lambda>sg (w :: unit). (Raised, w))\<rparr> = Some (\<lambda>sg w. (Raised, w))
   \<and> killProcessTree (Suc 0) (mock False example_children (\<lambda>p. Completed) (\<lambda>p. Rejected))
         (Handle \<lparr>pid = Some None, kill = Some (\<lambda>sg w. (Raised, w))\<rparr>) ''SIGTERM'' start
       = Some (Returned \<lparr>world = (), trace = [TargetKill ''SIGTERM'' Raised]\<rparr>)
   \<and> killProcessTreeAsync (mock False example_children (\<lambda>p. Completed) (\<lambda>p. Rejected))
         (Handle \<lparr>pid = Some None, kill = Some (\<lambda>sg w. (Raised, w))\<rparr>) ''SIGTERM'' start
       = Returned \<lparr>world = (), trace = [TargetKill ''SIGTERM'' Raised]\<rparr>"
  using C5_fallback_direct_kill
    [of "\<lparr>pid = Some None, kill = Some (\<lambda>sg w. (Raised, w))\<rparr>" "\<lambda>sg w. (Raised, w)" 0
        "mock False example_children (\<lambda>p. Completed) (\<lambda>p. Rejected)" "''SIGTERM''" start]
  by (simp add: start_def)

text \<open>
  \<^bold>\<open>C6.\<close> A node whose discovery fails is still signalled. On the Unix branch, when
  \<open>pgrep\<close> for a usable identifier throws, has no \<open>stdout\<close> or prints nothing, the
  synchronous call on it makes that one query, signals the identifier and returns,
  so a loop over its siblings goes on with the next one. When \<open>pidtree\<close> rejects, the
  asynchronous call signals no descendant and still signals the root.
\<close>

theorem C6_discovery_failure:
  assumes "\<not> isWindows sys" and "\<not> falsy (Some p)"
  shows "(finds_nothing (fst (spawnSync sys ''pgrep'' [''-P'', String_js p] EncodingUtf8 (world s))) \<longrightarrow>
           (\<exists>s'. killProcessTree (Suc fuel) sys (Pid p) sg s = Some (Returned s')
              \<and> trace s' = trace s @
                   [SpawnSync ''pgrep'' [''-P'', String_js p] EncodingUtf8
                      (fst (spawnSync sys ''pgrep'' [''-P'', String_js p] EncodingUtf8 (world s))),
                    ProcessKill p sg (fst (process_kill sys p sg
                      (snd (spawnSync sys ''pgrep'' [''-P'', String_js p] EncodingUtf8 (world s)))))]
              \<and> for_of_opt (\<lambda>c. killProcessTree (Suc fuel) sys (Pid c) sg) (p # rest) s
                  = for_of_opt (\<lambda>c. killProcessTree (Suc fuel) sys (Pid c) sg) rest s'))
       \<and> (fst (pidtree sys p (world s)) = Rejected \<longrightarrow>
           (\<exists>s'. killProcessTreeAsync sys (Pid p) sg s = Returned s'
              \<and> trace s' = trace s @
                   [Pidtree p Rejected,
                    ProcessKill p sg (fst (process_kill sys p sg (snd (pidtree sys p (world s)))))]))"
proof (intro conjI impI)
  assume f: "finds_nothing (fst (spawnSync sys ''pgrep'' [''-P'', String_js p] EncodingUtf8 (world s)))"
  have e: "extractPid (Pid p :: 'a target) = Some p" by simp
  show "\<exists>s'. killProcessTree (Suc fuel) sys (Pid p) sg s = Some (Returned s')
              \<and> trace s' = trace s @
                   [SpawnSync ''pgrep'' [''-P'', String_js p] EncodingUtf8
                      (fst (spawnSync sys ''pgrep'' [''-P'', String_js p] EncodingUtf8 (world s))),
                    ProcessKill p sg (fst (process_kill sys p sg
                      (snd (spawnSync sys ''pgrep'' [''-P'', String_js p] EncodingUtf8 (world s)))))]
              \<and> for_of_opt (\<lambda>c. killProcessTree (Suc fuel) sys (Pid c) sg) (p # rest) s
                  = for_of_opt (\<lambda>c. killProcessTree (Suc fuel) sys (Pid c) sg) rest s'"
    by (simp add: sweep_leaf [OF assms(1) e assms(2) f])
next
  assume r: "fst (pidtree sys p (world s)) = Rejected"
  have e: "extractPid (Pid p :: 'a target) = Some p" by simp
  show "\<exists>s'. killProcessTreeAsync sys (Pid p) sg s = Returned s'
              \<and> trace s' = trace s @
                   [Pidtree p Rejected,
                    ProcessKill p sg (fst (process_kill sys p sg (snd (pidtree sys p (world s)))))]"
    by (simp add: async_unix [OF assms(1) e assms(2)] r signal_step)
qed

text \<open>
  The root 100 lists A 101 and B 102, and every other query throws: A is signalled
  after its failed query, the loop goes on to B, and the root is signalled last.
\<close>

theorem C6_discovery_failure_witness:
  "\<not> isWindows failing_sys \<and> \<not> falsy (Some (Num 101))
   \<and> finds_nothing (fst (spawnSync failing_sys ''pgrep'' [''-P'', String_js (Num 101)] EncodingUtf8 ()))
   \<and> fst (pidtree failing_sys (Num 101) ()) = Rejected
   \<and> (\<exists>s'. killProcessTree (Suc 0) failing_sys (Pid (Num 101)) ''SIGKILL'' start = Some (Returned s')
          \<and> trace s' = [SpawnSync ''pgrep'' [''-P'', ''101''] EncodingUtf8 SpawnThrows,
                         ProcessKill (Num 101) ''SIGKILL'' Completed]
          \<and> for_of_opt (\<lambda>c. killProcessTree (Suc 0) failing_sys (Pid c) ''SIGKILL'')
                [Num 101, Num 102] start
              = for_of_opt (\<lambda>c. killProcessTree (Suc 0) failing_sys (Pid c) ''SIGKILL'')
                [Num 102] s')
   \<and> (\<exists>s'. killProcessTreeAsync failing_sys (Pid (Num 101)) ''SIGKILL'' start = Returned s'
          \<and> trace s' = [Pidtree (Num 101) Rejected, ProcessKill (Num 101) ''SIGKILL'' Completed])
   \<and> killProcessTree 3 failing_sys (Pid (Num 100)) ''SIGKILL'' start
       = Some (Returned \<lparr>world = (), trace =
         [SpawnSync ''pgrep'' [''-P'', ''100''] EncodingUtf8 (SpawnReturns (Some (pgrep_stdout [Num 101, Num 102]))),
          SpawnSync ''pgrep'' [''-P'', ''101''] EncodingUtf8 SpawnThrows,
          ProcessKill (Num 101) ''SIGKILL'' Completed,
          SpawnSync ''pgrep'' [''-P'', ''102''] EncodingUtf8 SpawnThrows,
          ProcessKill (Num 102) ''SIGKILL'' Completed,
          ProcessKill (Num 100) ''SIGKILL'' Completed]\<rparr>)"
proof -
  have h1: "\<not> isWindows failing_sys" by (simp add: failing_sys_def)
  have h2: "\<not> falsy (Some (Num 101))" by simp
  have h3: "finds_nothing (fst (spawnSync failing_sys ''pgrep'' [''-P'', String_js (Num 101)] EncodingUtf8 ()))"
    by (simp add: failing_sys_def Number_js_String_js failing_children_def)
  have h4: "fst (pidtree failing_sys (Num 101) ()) = Rejected"
    by (simp add: failing_sys_def)
  have sp: "spawnSync failing_sys ''pgrep'' [''-P'', String_js (Num 101)] EncodingUtf8 () = (SpawnThrows, ())"
    by (simp add: failing_sys_def Number_js_String_js failing_children_def)
  have pk: "process_kill failing_sys p sg w = (Completed, w)" for p sg w
    by (simp add: failing_sys_def)
  have pt: "pidtree failing_sys p w = (Rejected, w)" for p w
    by (simp add: failing_sys_def)
  from C6_discovery_failure [OF h1 h2, of start 0 "''SIGKILL''" "[Num 102]", unfolded start_def state.simps sp pk pt]
    h3 h4
  have "(\<exists>s'. killProcessTree (Suc 0) failing_sys (Pid (Num 101)) ''SIGKILL'' start = Some (Returned s')
          \<and> trace s' = [SpawnSync ''pgrep'' [''-P'', ''101''] EncodingUtf8 SpawnThrows,
                         ProcessKill (Num 101) ''SIGKILL'' Completed]
          \<and> for_of_opt (\<lambda>c. killProcessTree (Suc 0) failing_sys (Pid c) ''SIGKILL'')
                [Num 101, Num 102] start
              = for_of_opt (\<lambda>c. killProcessTree (Suc 0) failing_sys (Pid c) ''SIGKILL'')
                [Num 102] s')
   \<and> (\<exists>s'. killProcessTreeAsync failing_sys (Pid (Num 101)) ''SIGKILL'' start = Returned s'
          \<and> trace s' = [Pidtree (Num 101) Rejected, ProcessKill (Num 101) ''SIGKILL'' Completed])"
    by (simp add: start_def sp pk pt String_js_101 del: for_of_opt.simps)
  with h1 h2 h3 h4 failing_sweep show ?thesis by blast
qed

text \<open>
  \<^bold>\<open>C7.\<close> A second call on a reference that is gone does nothing. When the process of a
  usable identifier and its descendants are no longer in the table, the synchronous
  entry point returns and leaves the world as it was, and so does a second call right
  after it, with the same calls as the first; no call of either delivers a signal. On
  the Unix branch these calls are one child query that finds nothing and one signal
  that is refused.
\<close>

theorem C7_second_call_noop:
  assumes "extractPid target = Some p" and "\<not> falsy (Some p)" and "gone sys p sg (world s)"
  shows "\<exists>s1 s2 evs.
           killProcessTree (Suc fuel) sys target sg s = Some (Returned s1)
           \<and> killProcessTree (Suc fuel) sys target sg s1 = Some (Returned s2)
           \<and> world s1 = world s \<and> world s2 = world s
           \<and> trace s1 = trace s @ evs \<and> trace s2 = trace s1 @ evs
           \<and> filter delivers evs = []
           \<and> (\<not> isWindows sys \<longrightarrow>
                finds_nothing (fst (spawnSync sys ''pgrep'' [''-P'', String_js p] EncodingUtf8 (world s)))
                \<and> evs = [SpawnSync ''pgrep'' [''-P'', String_js p] EncodingUtf8
                           (fst (spawnSync sys ''pgrep'' [''-P'', String_js p] EncodingUtf8 (world s))),
                         ProcessKill p sg Raised])"
proof (cases "isWindows sys")
  case True
  let ?r = "fst (spawnSync sys ''taskkill'' [''/pid'', String_js p, ''/t'', ''/f''] StdioIgnore (world s))"
  let ?evs = "[SpawnSync ''taskkill'' [''/pid'', String_js p, ''/t'', ''/f''] StdioIgnore ?r]"
  let ?s1 = "\<lparr>world = world s, trace = trace s @ ?evs\<rparr>"
  let ?s2 = "\<lparr>world = world s, trace = trace ?s1 @ ?evs\<rparr>"
  from assms(3) True have w: "snd (spawnSync sys ''taskkill'' [''/pid'', String_js p, ''/t'', ''/f'']
      StdioIgnore (world s)) = world s"
    by (simp add: gone_def)
  have "killProcessTree (Suc fuel) sys target sg s = Some (Returned ?s1)"
    by (simp add: killProcessTree_windows [OF True assms(1,2)] taskkill_step w)
  moreover have "killProcessTree (Suc fuel) sys target sg ?s1 = Some (Returned ?s2)"
    by (simp add: killProcessTree_windows [OF True assms(1,2)] taskkill_step w)
  moreover have "filter delivers ?evs = []" by simp
  ultimately show ?thesis
    using True by (intro exI [of _ ?s1] exI [of _ ?s2] exI [of _ ?evs]) simp
next
  case False
  let ?r = "fst (spawnSync sys ''pgrep'' [''-P'', String_js p] EncodingUtf8 (world s))"
  let ?evs = "[SpawnSync ''pgrep'' [''-P'', String_js p] EncodingUtf8 ?r, ProcessKill p sg Raised]"
  let ?s1 = "\<lparr>world = world s, trace = trace s @ ?evs\<rparr>"
  let ?s2 = "\<lparr>world = world s, trace = trace ?s1 @ ?evs\<rparr>"
  from assms(3) False have f: "finds_nothing ?r"
    and w: "snd (spawnSync sys ''pgrep'' [''-P'', String_js p] EncodingUtf8 (world s)) = world s"
    and k: "process_kill sys p sg (world s) = (Raised, world s)"
    by (simp_all add: gone_def)
  have "killProcessTree (Suc fuel) sys target sg s = Some (Returned ?s1)"
    using f by (simp add: sweep_leaf [OF False assms(1,2)] w k)
  moreover have "killProcessTree (Suc fuel) sys target sg ?s1 = Some (Returned ?s2)"
    using f by (simp add: sweep_leaf [OF False assms(1,2)] w k)
  moreover have "filter delivers ?evs = []" by simp
  ultimately show ?thesis
    using False f by (intro exI [of _ ?s1] exI [of _ ?s2] exI [of _ ?evs]) simp
qed

text \<open>
  In the simulated table the first call ends the four processes of the example tree
  and leaves the table empty; the two calls that follow change nothing.
\<close>

theorem C7_second_call_noop_witness:
  "(\<exists>tr. killProcessTree 3 table_sys (Pid (Num 100)) ''SIGKILL'' \<lparr>world = example_table_world, trace = []\<rparr>
            = Some (Returned \<lparr>world = [], trace = tr\<rparr>)
      \<and> extractPid (Pid (Num 100) :: ptable target) = Some (Num 100)
      \<and> \<not> falsy (Some (Num 100))
      \<and> gone table_sys (Num 100) ''SIGKILL'' (world \<lparr>world = [], trace = tr\<rparr>)
      \<and> (\<exists>s1 s2. killProcessTree (Suc 0) table_sys (Pid (Num 100)) ''SIGKILL'' \<lparr>world = [], trace = tr\<rparr>
                      = Some (Returned s1)
            \<and> killProcessTree (Suc 0) table_sys (Pid (Num 100)) ''SIGKILL'' s1 = Some (Returned s2)
            \<and> world s1 = [] \<and> world s2 = []
            \<and> trace s1 = tr @ [SpawnSync ''pgrep'' [''-P'', ''100''] EncodingUtf8 (SpawnReturns (Some [])),
                               ProcessKill (Num 100) ''SIGKILL'' Raised]
            \<and> trace s2 = trace s1 @ [SpawnSync ''pgrep'' [''-P'', ''100''] EncodingUtf8 (SpawnReturns (Some [])),
                                      ProcessKill (Num 100) ''SIGKILL'' Raised]))"
proof -
  obtain tr where t: "killProcessTree 3 table_sys (Pid (Num 100)) ''SIGKILL''
      \<lparr>world = example_table_world, trace = []\<rparr> = Some (Returned \<lparr>world = [], trace = tr\<rparr>)"
    using table_sweep by blast
  have h1: "extractPid (Pid (Num 100) :: ptable target) = Some (Num 100)" by simp
  have h2: "\<not> falsy (Some (Num 100))" by simp
  have h3: "gone table_sys (Num 100) ''SIGKILL'' (world \<lparr>world = [], trace = tr\<rparr>)"
    by (simp add: gone_empty_table)
  have u: "\<not> isWindows table_sys" by (simp add: table_sys_def)
  have sp: "spawnSync table_sys ''pgrep'' [''-P'', a] EncodingUtf8 [] = (SpawnReturns (Some []), [])"
    for a
    by (simp add: table_sys_def children_in_def)
  from C7_second_call_noop [OF h1 h2 h3, of 0] u
  obtain s1 s2 evs where
    a: "killProcessTree (Suc 0) table_sys (Pid (Num 100)) ''SIGKILL'' \<lparr>world = [], trace = tr\<rparr>
          = Some (Returned s1)"
    and b: "killProcessTree (Suc 0) table_sys (Pid (Num 100)) ''SIGKILL'' s1 = Some (Returned s2)"
    and c: "world s1 = []" "world s2 = []" "trace s1 = tr @ evs" "trace s2 = trace s1 @ evs"
    and d: "evs = [SpawnSync ''pgrep'' [''-P'', String_js (Num 100)] EncodingUtf8
                    (fst (spawnSync table_sys ''pgrep'' [''-P'', String_js (Num 100)] EncodingUtf8 [])),
                  ProcessKill (Num 100) ''SIGKILL'' Raised]"
    by auto
  from d have "evs = [SpawnSync ''pgrep'' [''-P'', ''100''] EncodingUtf8 (SpawnReturns (Some [])),
                  ProcessKill (Num 100) ''SIGKILL'' Raised]"
    by (simp add: sp String_js_100)
  with a b c t h1 h2 h3 show ?thesis by blast
qed

text \<open>
  \<^bold>\<open>C8.\<close> When the children that \<open>pgrep\<close> lists come from a finite, acyclic table of
  (parent, child) pairs, the synchronous entry point returns: some depth of recursion
  is enough, whatever the world does otherwise. On the Unix branch the sweep visits
  every discovered identifier once for each time it was discovered: the number of
  signals sent to a usable identifier is the number of times \<open>pgrep\<close> printed it
  during the call, plus one for the identifier of the target itself.
\<close>

theorem C8_sweep_terminates:
  assumes "acyclic (set table)" and "lists_within sys table"
  shows "\<exists>fuel s'. killProcessTree fuel sys target sg s = Some (Returned s')
           \<and> (\<not> isWindows sys \<longrightarrow>
                (\<exists>new. trace s' = trace s @ new
                   \<and> (\<forall>q. \<not> falsy (Some q) \<longrightarrow>
                         count_list (map fst (signals new)) q
                           = (if extractPid target = Some q then 1 else 0)
                             + count_list (discovered new) q)))"
proof -
  from sweep_terminates [OF assms] obtain fuel s' where
    r: "killProcessTree fuel sys target sg s = Some (Returned s')" by blast
  have "\<not> isWindows sys \<longrightarrow>
                (\<exists>new. trace s' = trace s @ new
                   \<and> (\<forall>q. \<not> falsy (Some q) \<longrightarrow>
                         count_list (map fst (signals new)) q
                           = (if extractPid target = Some q then 1 else 0)
                             + count_list (discovered new) q))"
    using sweep_counts [OF _ r] by blast
  with r show ?thesis by blast
qed

theorem C8_sweep_terminates_witness:
  "acyclic (set example_table)
   \<and> lists_within (mock False example_children (\<lambda>p. Completed) (\<lambda>p. Rejected)) example_table
   \<and> (\<exists>fuel s'. killProcessTree fuel (mock False example_children (\<lambda>p. Completed) (\<lambda>p. Rejected))
                    (Pid (Num 100)) ''SIGKILL'' start = Some (Returned s')
          \<and> count_list (map fst (signals (trace s'))) (Num 100)
              = 1 + count_list (discovered (trace s')) (Num 100)
          \<and> count_list (map fst (signals (trace s'))) (Num 103)
              = count_list (discovered (trace s')) (Num 103))"
proof -
  let ?M = "mock False example_children (\<lambda>p. Completed) (\<lambda>p. Rejected)"
  from C8_sweep_terminates [OF acyclic_example lists_within_example, of False "\<lambda>p. Completed"
      "\<lambda>p. Rejected" "Pid (Num 100)" "''SIGKILL''" start]
  obtain fuel s' where r: "killProcessTree fuel ?M (Pid (Num 100)) ''SIGKILL'' start = Some (Returned s')"
    and c: "\<forall>q. \<not> falsy (Some q) \<longrightarrow>
              count_list (map fst (signals (trace s'))) q
                = (if Num 100 = q then 1 else 0) + count_list (discovered (trace s')) q"
    by (auto simp: start_def)
  from c have "count_list (map fst (signals (trace s'))) (Num 100)
              = 1 + count_list (discovered (trace s')) (Num 100)"
    by (elim allE [of _ "Num 100"]) simp
  moreover from c have "count_list (map fst (signals (trace s'))) (Num 103)
              = count_list (discovered (trace s')) (Num 103)"
    by (elim allE [of _ "Num 103"]) simp
  ultimately show ?thesis
    using r acyclic_example lists_within_example by blast
qed

text \<open>
  \<^bold>\<open>C9.\<close> The identifier 0 counts as no identifier, since the test is \<open>!pid\<close>. Given the
  bare number 0, either entry point returns in the state it started in: no signal, no
  command, no capability. A handle whose \<open>pid\<close> is 0 takes the direct-kill path: its
  own \<open>kill\<close> is called once and nothing else happens.
\<close>

theorem C9_zero_is_absent:
  "falsy (Some (Num 0))
   \<and> killProcessTree (Suc fuel) sys (Pid (Num 0)) sg s = Some (Returned s)
   \<and> killProcessTreeAsync sys (Pid (Num 0)) sg s = Returned s
   \<and> killProcessTree (Suc fuel) sys (Handle \<lparr>pid = Some (Some (Num 0)), kill = Some k\<rparr>) sg s
       = Some (Returned \<lparr>world = snd (k sg (world s)),
                         trace = trace s @ [TargetKill sg (fst (k sg (world s)))]\<rparr>)
   \<and> killProcessTreeAsync sys (Handle \<lparr>pid = Some (Some (Num 0)), kill = Some k\<rparr>) sg s
       = Returned \<lparr>world = snd (k sg (world s)),
                   trace = trace s @ [TargetKill sg (fst (k sg (world s)))]\<rparr>"
  by (simp add: killProcessTree_falsy async_falsy target_kill_step)

text \<open>
  \<^bold>\<open>C10.\<close> On Windows, for a target with a usable identifier, the signal plays no part:
  two runs that differ only in the signal are equal, for either entry point, and each
  makes the one call \<open>taskkill /pid <pid> /t /f\<close> and returns.
\<close>

theorem C10_windows_ignores_signal:
  assumes "isWindows sys" and "extractPid target = Some p" and "\<not> falsy (Some p)"
  shows "killProcessTree (Suc fuel) sys target sg1 s = killProcessTree (Suc fuel) sys target sg2 s
         \<and> killProcessTreeAsync sys target sg1 s = killProcessTreeAsync sys target sg2 s
         \<and> killProcessTree (Suc fuel) sys target sg1 s = Some (killProcessTreeAsync sys target sg1 s)
         \<and> killProcessTreeAsync sys target sg1 s
           = Returned \<lparr>world = snd (spawnSync sys ''taskkill'' [''/pid'', String_js p, ''/t'', ''/f'']
                                   StdioIgnore (world s)),
                       trace = trace s @ [SpawnSync ''taskkill'' [''/pid'', String_js p, ''/t'', ''/f'']
                                   StdioIgnore
                                   (fst (spawnSync sys ''taskkill'' [''/pid'', String_js p, ''/t'', ''/f'']
                                          StdioIgnore (world s)))]\<rparr>"
  using assms by (simp add: killProcessTree_windows async_windows taskkill_step)

theorem C10_windows_ignores_signal_witness:
  "isWindows (mock True example_children (\<lambda>p. Completed) (\<lambda>p. Rejected))
   \<and> extractPid (Pid (Num 100) :: unit target) = Some (Num 100)
   \<and> \<not> falsy (Some (Num 100))
   \<and> killProcessTree (Suc 0) (mock True example_children (\<lambda>p. Completed) (\<lambda>p. Rejected))
         (Pid (Num 100)) ''SIGTERM'' start
       = killProcessTree (Suc 0) (mock True example_children (\<lambda>p. Completed) (\<lambda>p. Rejected))
         (Pid (Num 100)) ''SIGKILL'' start
   \<and> killProcessTreeAsync (mock True example_children (\<lambda>p. Completed) (\<lambda>p. Rejected))
         (Pid (Num 100)) ''SIGTERM'' start
       = Returned \<lparr>world = (),
                   trace = [SpawnSync ''taskkill'' [''/pid'', ''100'', ''/t'', ''/f''] StdioIgnore
                              (SpawnReturns None)]\<rparr>"
  using C10_windows_ignores_signal
    [of "mock True example_children (\<lambda>p. Completed) (\<lambda>p. Rejected)" "Pid (Num 100)" "Num 100"
        0 "''SIGTERM''" start "''SIGKILL''"]
  by (auto simp: start_def String_js_100)

end
